theory Spec2Isabelle
  imports Complex_Main
begin

section \<open>Python values used by the remote offload pipeline\<close>

text \<open>
  The program is \<^verbatim>\<open>src/server/local/app.py\<close>. A Python \<^verbatim>\<open>str\<close> is a sequence of Unicode
  code points; it is modelled as a list of natural numbers, one per code point, so that
  slicing, \<^verbatim>\<open>startswith\<close>, \<^verbatim>\<open>rstrip\<close> and \<^verbatim>\<open>in\<close> count what Python counts.
  \<open>u\<close> turns an ASCII literal into such a list.
\<close>

type_synonym str = "nat list"

definition u :: "string \<Rightarrow> str" where
  "u s = map of_char s"

definition startswith :: "str \<Rightarrow> str \<Rightarrow> bool" where
  \<comment> \<open>\<^verbatim>\<open>s.startswith(p)\<close>\<close>
  "startswith s p = (take (length p) s = p)"

definition endswith :: "str \<Rightarrow> str \<Rightarrow> bool" where
  \<comment> \<open>\<^verbatim>\<open>s.endswith(p)\<close>\<close>
  "endswith s p = (length p \<le> length s \<and> drop (length s - length p) s = p)"

fun contains :: "str \<Rightarrow> str \<Rightarrow> bool" where
  \<comment> \<open>\<^verbatim>\<open>p in s\<close> for strings: \<open>p\<close> occurs as a contiguous piece of \<open>s\<close>\<close>
  "contains [] p = (p = [])"
| "contains (c # s) p = (startswith (c # s) p \<or> contains s p)"

fun str_nat :: "nat \<Rightarrow> str" where
  "str_nat n = (if n < 10 then [48 + n] else str_nat (n div 10) @ [48 + n mod 10])"

declare str_nat.simps [simp del]

definition str_int :: "int \<Rightarrow> str" where
  \<comment> \<open>\<^verbatim>\<open>str(i)\<close> for a Python int: decimal digits, a leading minus sign when negative\<close>
  "str_int i = (if i < 0 then 45 # str_nat (nat (- i)) else str_nat (nat i))"

fun join :: "str \<Rightarrow> str list \<Rightarrow> str" where
  \<comment> \<open>\<^verbatim>\<open>sep.join(xs)\<close>\<close>
  "join sep [] = []"
| "join sep [x] = x"
| "join sep (x # y # ys) = x @ sep @ join sep (y # ys)"

definition isspace :: "nat \<Rightarrow> bool" where
  \<comment> \<open>the code points for which \<^verbatim>\<open>str.isspace\<close> is true; \<^verbatim>\<open>rstrip()\<close> removes exactly these\<close>
  "isspace c = ((9 \<le> c \<and> c \<le> 13) \<or> (28 \<le> c \<and> c \<le> 32) \<or> c = 133 \<or> c = 160 \<or> c = 5760
     \<or> (8192 \<le> c \<and> c \<le> 8202) \<or> c = 8232 \<or> c = 8233 \<or> c = 8239 \<or> c = 8287 \<or> c = 12288)"

definition rstrip :: "str \<Rightarrow> str" where
  \<comment> \<open>\<^verbatim>\<open>s.rstrip()\<close>: drop the trailing whitespace\<close>
  "rstrip s = rev (dropWhile isspace (rev s))"

definition last_n :: "nat \<Rightarrow> 'a list \<Rightarrow> 'a list" where
  \<comment> \<open>\<^verbatim>\<open>xs[-n:]\<close> for \<open>n > 0\<close>: the last \<open>n\<close> elements, all of them when there are fewer\<close>
  "last_n n xs = drop (length xs - n) xs"

section \<open>Session name resolution (lines 248--270)\<close>

text \<open>
  \<^verbatim>\<open>glob.glob(os.path.join(folder, pat))\<close> lists the entries of the folder, files and
  directories alike, in directory order, drops the names that start with a dot and keeps
  the names that \<^verbatim>\<open>fnmatch\<close> accepts. \<^verbatim>\<open>fnmatch.filter\<close> compares
  \<^verbatim>\<open>os.path.normcase(name)\<close> with the pattern: the identity on POSIX, lower case on
  Windows, where the server is meant to run (its default key path is
  \<^verbatim>\<open>C:/Users/...\<close> and it rewrites backslashes for scp). Only the ASCII letters are
  lowered here; the lower case of other letters is left out.
  The folder's entries are given as the list of their names; the base name of a hit
  \<^verbatim>\<open>os.path.join(folder, name)\<close> is \<open>name\<close>.
\<close>

datatype platform = Posix | Windows

definition ascii_lower :: "nat \<Rightarrow> nat" where
  "ascii_lower c = (if 65 \<le> c \<and> c \<le> 90 then c + 32 else c)"

definition normcase :: "platform \<Rightarrow> str \<Rightarrow> str" where
  "normcase p s = (case p of Posix \<Rightarrow> s
     | Windows \<Rightarrow> map (\<lambda>c. ascii_lower (if c = 47 then 92 else c)) s)"

definition ishidden :: "str \<Rightarrow> bool" where
  "ishidden n = (case n of [] \<Rightarrow> False | c # _ \<Rightarrow> c = 46)"

definition glob_session :: "platform \<Rightarrow> str list \<Rightarrow> str list" where
  \<comment> \<open>\<^verbatim>\<open>glob.glob(os.path.join(actual_session_folder, "session_*"))\<close>, as base names\<close>
  "glob_session p names =
     filter (\<lambda>n. \<not> ishidden n \<and> startswith (normcase p n) (u ''session_'')) names"

definition glob_jsonl :: "platform \<Rightarrow> str list \<Rightarrow> str list" where
  \<comment> \<open>\<^verbatim>\<open>glob.glob(os.path.join(actual_session_folder, "*.jsonl"))\<close>, as base names\<close>
  "glob_jsonl p names =
     filter (\<lambda>n. \<not> ishidden n \<and> endswith (normcase p n) (u ''.jsonl'')) names"

definition synthesized :: "int \<Rightarrow> str" where
  \<comment> \<open>\<^verbatim>\<open>f"session_{int(time.time() * 1000)}"\<close>, the clock reading given in milliseconds\<close>
  "synthesized now_ms = u ''session_'' @ str_int now_ms"

definition conforming :: "str \<Rightarrow> bool" where
  \<comment> \<open>the test of line 260\<close>
  "conforming b = (startswith b (u ''session_'') \<and> endswith b (u ''.jsonl''))"

definition session_name_candidate :: "platform \<Rightarrow> str list \<Rightarrow> int \<Rightarrow> str" where
  \<comment> \<open>lines 249--267: the value of \<^verbatim>\<open>session_folder_name\<close> when line 269 is reached\<close>
  "session_name_candidate p names now_ms =
     (case glob_session p names of
        h # _ \<Rightarrow> h
      | [] \<Rightarrow>
         (case glob_jsonl p names of
            j # _ \<Rightarrow> if conforming j then take (length j - 6) j else synthesized now_ms
          | [] \<Rightarrow> synthesized now_ms))"

definition session_folder_name :: "platform \<Rightarrow> str list \<Rightarrow> int \<Rightarrow> str \<Rightarrow> str" where
  \<comment> \<open>lines 269--270; \<open>root_base\<close> is
     \<^verbatim>\<open>os.path.basename(actual_session_folder.rstrip('/'))\<close>\<close>
  "session_folder_name p names now_ms root_base =
     (let name = session_name_candidate p names now_ms
      in if name = [] then root_base else name)"

section \<open>JSON values and the result parser's helpers\<close>

text \<open>
  What \<^verbatim>\<open>json.load\<close> returns: \<^verbatim>\<open>None\<close>, a bool, an int, a float, a string, a list or
  a dict. A dict is given by its items. No arithmetic is done on the numbers; a float is
  kept by its value, or as one of the three special values the decoder accepts.
\<close>

datatype float_val = Finite rat | Infinite bool | NaN

datatype json =
    JNull
  | JBool bool
  | JInt int
  | JFloat float_val
  | JStr str
  | JArr "json list"
  | JObj "(str \<times> json) list"

fun truthy :: "json \<Rightarrow> bool" where
  \<comment> \<open>the truth value Python gives the object in \<^verbatim>\<open>if rotation_axis:\<close>\<close>
  "truthy JNull = False"
| "truthy (JBool b) = b"
| "truthy (JInt i) = (i \<noteq> 0)"
| "truthy (JFloat (Finite r)) = (r \<noteq> 0)"
| "truthy (JFloat (Infinite _)) = True"
| "truthy (JFloat NaN) = True"
| "truthy (JStr s) = (s \<noteq> [])"
| "truthy (JArr xs) = (xs \<noteq> [])"
| "truthy (JObj kvs) = (kvs \<noteq> [])"

definition py_get :: "(str \<times> json) list \<Rightarrow> str \<Rightarrow> json \<Rightarrow> json" where
  \<comment> \<open>\<^verbatim>\<open>d.get(key, default)\<close>\<close>
  "py_get d k dflt = (case map_of d k of None \<Rightarrow> dflt | Some v \<Rightarrow> v)"

definition zero_coordinates :: json where
  \<comment> \<open>\<^verbatim>\<open>[0.0, 0.0, 0.0]\<close>\<close>
  "zero_coordinates = JArr [JFloat (Finite 0), JFloat (Finite 0), JFloat (Finite 0)]"


definition re_search_braces :: "str \<Rightarrow> str option" where
  \<comment> \<open>\<^verbatim>\<open>re.search(r'\{.*\}', output, re.DOTALL)\<close> and \<^verbatim>\<open>.group()\<close>: the leftmost match starts
     at the first opening brace, and the greedy \<^verbatim>\<open>.*\<close> ends it at the last closing brace\<close>
  "re_search_braces s =
     (case dropWhile (\<lambda>c. c \<noteq> 123) s of
        [] \<Rightarrow> None
      | b # rest \<Rightarrow>
          if 125 \<in> set rest then Some (b # rev (dropWhile (\<lambda>c. c \<noteq> 125) (rev rest)))
          else None)"

section \<open>Configuration, exceptions, and the world outside the process\<close>

record config =
  GPU_SERVER_HOST :: str
  GPU_SERVER_PORT :: int
  GPU_SERVER_USER :: str
  GPU_SERVER_SSH_KEY :: str

datatype advice = Check_VPN | Check_GPU_Server | Check_Network

datatype tail = No_Output | Recent str

text \<open>
  One constructor for each \<^verbatim>\<open>raise\<close> of the source, with what its message interpolates,
  and one for each exception the libraries raise into the pipeline.
\<close>

datatype exn =
    Config_Missing \<comment> \<open>\<^verbatim>\<open>ValueError\<close>, lines 39, 88, 136\<close>
  | Key_File_Missing \<comment> \<open>\<^verbatim>\<open>FileNotFoundError\<close>, lines 44, 93, 141\<close>
  | Upload_Timeout str int \<comment> \<open>line 70: host, port\<close>
  | Upload_Connect_Failed str int str \<comment> \<open>line 75: host, port, error\_msg\<close>
  | Upload_Failed str \<comment> \<open>line 81: error\_msg\<close>
  | Download_Timeout str int \<comment> \<open>line 119: host, port\<close>
  | Download_Connect_Failed str int str \<comment> \<open>line 124: host, port, error\_msg\<close>
  | Download_Failed str \<comment> \<open>line 129: error\_msg\<close>
  | Ssh_Stream_Failed int tail \<comment> \<open>line 211: return code, error\_output\<close>
  | Ssh_Failed int str \<comment> \<open>line 227: return code, error\_msg\<close>
  | Ssh_TimeoutExpired \<comment> \<open>\<^verbatim>\<open>subprocess.TimeoutExpired\<close> out of line 223\<close>
  | Tar_Failed \<comment> \<open>raised by \<^verbatim>\<open>tarfile\<close>, lines 284--285\<close>
  | Json_Decode_Failed \<comment> \<open>raised by \<^verbatim>\<open>json.load\<close>, line 366\<close>
  | Not_A_Dict \<comment> \<open>\<^verbatim>\<open>AttributeError\<close>: \<^verbatim>\<open>.get\<close> on a decoded value that is no dict\<close>

datatype error_kind =
  ConfigError | ConnectivityError | TransferError | ExecutionError | ParseError | OtherError

fun kind_of :: "exn \<Rightarrow> error_kind" where
  \<comment> \<open>the name the specification's taxonomy gives each of them; the source has no
     exception classes of its own\<close>
  "kind_of Config_Missing = ConfigError"
| "kind_of Key_File_Missing = ConfigError"
| "kind_of (Upload_Timeout _ _) = ConnectivityError"
| "kind_of (Upload_Connect_Failed _ _ _) = ConnectivityError"
| "kind_of (Upload_Failed _) = TransferError"
| "kind_of (Download_Timeout _ _) = ConnectivityError"
| "kind_of (Download_Connect_Failed _ _ _) = ConnectivityError"
| "kind_of (Download_Failed _) = TransferError"
| "kind_of (Ssh_Stream_Failed _ _) = ExecutionError"
| "kind_of (Ssh_Failed _ _) = ExecutionError"
| "kind_of Ssh_TimeoutExpired = ExecutionError"
| "kind_of Tar_Failed = OtherError"
| "kind_of Json_Decode_Failed = ParseError"
| "kind_of Not_A_Dict = ParseError"

fun guidance :: "exn \<Rightarrow> advice list" where
  \<comment> \<open>the checks the message text asks the operator to make: line 70 names the VPN;
     lines 76--79 list VPN, GPU server and network; line 119 names none; lines 125--127
     list VPN and GPU server\<close>
  "guidance (Upload_Timeout _ _) = [Check_VPN]"
| "guidance (Upload_Connect_Failed _ _ _) = [Check_VPN, Check_GPU_Server, Check_Network]"
| "guidance (Download_Timeout _ _) = []"
| "guidance (Download_Connect_Failed _ _ _) = [Check_VPN, Check_GPU_Server]"
| "guidance _ = []"

fun diagnostic :: "exn \<Rightarrow> str option" where
  \<comment> \<open>the subprocess's own text, where the message carries it\<close>
  "diagnostic (Upload_Connect_Failed _ _ m) = Some m"
| "diagnostic (Upload_Failed m) = Some m"
| "diagnostic (Download_Connect_Failed _ _ m) = Some m"
| "diagnostic (Download_Failed m) = Some m"
| "diagnostic (Ssh_Failed _ m) = Some m"
| "diagnostic _ = None"

datatype tmpfile = Tar_Bundle | Result_File

datatype script = Process_And_Save_Result | Inference_With_Pose

datatype local_path = Tmp tmpfile | Script script

datatype remote_path = Remote_Tar str | Remote_Script script | Remote_Result str

datatype remote_cmd =
    Extract_Cmd str \<comment> \<open>the command of lines 299--304, for a session name\<close>
  | Script_Cmd \<comment> \<open>the command of lines 340--347\<close>

datatype launch =
    Scp_Upload local_path remote_path
  | Scp_Download remote_path local_path
  | Ssh remote_cmd bool

datatype completed =
    TimeoutExpired
  | Completed int str str \<comment> \<open>returncode, stdout, stderr\<close>

text \<open>
  Everything the process reads from outside: the configuration, the file system, the
  clock, what each subprocess does, and the JSON decoder of the standard library.
  A streaming ssh process is given by what the read loop observes in each round: the
  string \<^verbatim>\<open>readline()\<close> returns and the value \<^verbatim>\<open>poll()\<close> would return then.
\<close>

record world =
  conf :: config
  key_exists :: bool
  os_platform :: platform
  listing :: "str list"
  clock_ms :: int
  root_base :: str
  tar_fails :: bool
  script_exists :: "script \<Rightarrow> bool"
  run_scp :: "launch \<Rightarrow> completed"
  run_ssh :: "remote_cmd \<Rightarrow> completed"
  popen_ssh :: "remote_cmd \<Rightarrow> (str \<times> int option) list"
  result_file_text :: str
  json_loads :: "str \<Rightarrow> json option"

record pstate =
  files :: "tmpfile set" \<comment> \<open>the local temporary files that exist\<close>
  launched :: "launch list" \<comment> \<open>the subprocesses started so far, oldest first\<close>

section \<open>Exceptions and state: the control operators of the model\<close>

text \<open>
  A computation takes the state and, unless it runs forever (\<open>None\<close>), ends with an
  exception (\<open>Inl\<close>) or a value (\<open>Inr\<close>) and the state it leaves.
\<close>

type_synonym 'a comp = "pstate \<Rightarrow> ((exn + 'a) \<times> pstate) option"

definition ret :: "'a \<Rightarrow> 'a comp" where
  "ret a = (\<lambda>s. Some (Inr a, s))"

definition throw :: "exn \<Rightarrow> 'a comp" where
  "throw e = (\<lambda>s. Some (Inl e, s))"

definition bind :: "'a comp \<Rightarrow> ('a \<Rightarrow> 'b comp) \<Rightarrow> 'b comp" where
  \<comment> \<open>one statement after another: an exception skips the rest\<close>
  "bind m f = (\<lambda>s. case m s of
       None \<Rightarrow> None
     | Some (Inl e, s') \<Rightarrow> Some (Inl e, s')
     | Some (Inr a, s') \<Rightarrow> f a s')"

definition try_except :: "'a comp \<Rightarrow> (exn \<Rightarrow> 'a comp) \<Rightarrow> 'a comp" where
  \<comment> \<open>\<^verbatim>\<open>try: m  except Exception as e: h\<close>\<close>
  "try_except m h = (\<lambda>s. case m s of
       None \<Rightarrow> None
     | Some (Inl e, s') \<Rightarrow> h e s'
     | Some (Inr a, s') \<Rightarrow> Some (Inr a, s'))"

definition try_finally :: "'a comp \<Rightarrow> unit comp \<Rightarrow> 'a comp" where
  \<comment> \<open>\<^verbatim>\<open>try: m  finally: c\<close>: \<open>c\<close> runs however \<open>m\<close> ends, and \<open>m\<close>'s outcome stands
     unless \<open>c\<close> raises\<close>
  "try_finally m c = (\<lambda>s. case m s of
       None \<Rightarrow> None
     | Some (r, s') \<Rightarrow>
         (case c s' of
            None \<Rightarrow> None
          | Some (Inl e, s'') \<Rightarrow> Some (Inl e, s'')
          | Some (Inr _, s'') \<Rightarrow> Some (r, s'')))"

definition started :: "launch \<Rightarrow> pstate \<Rightarrow> pstate" where
  "started l s = s\<lparr>launched := launched s @ [l]\<rparr>"

definition create_temp :: "tmpfile \<Rightarrow> pstate \<Rightarrow> pstate" where
  \<comment> \<open>\<^verbatim>\<open>tempfile.NamedTemporaryFile(..., delete=False)\<close>, closed at once\<close>
  "create_temp f s = s\<lparr>files := insert f (files s)\<rparr>"

definition unlink_if_exists :: "tmpfile \<Rightarrow> unit comp" where
  \<comment> \<open>\<^verbatim>\<open>if os.path.exists(p): os.unlink(p)\<close>\<close>
  "unlink_if_exists f = (\<lambda>s.
     Some (Inr (), if f \<in> files s then s\<lparr>files := files s - {f}\<rparr> else s))"

section \<open>TransferClient: \<^verbatim>\<open>upload_to_gpu_server\<close> and \<^verbatim>\<open>download_from_gpu_server\<close>\<close>

text \<open>
  The argument vector of scp is fixed by the configuration and the two paths, so a
  started subprocess is recorded by its direction and paths. \<^verbatim>\<open>subprocess.run\<close> either
  raises \<^verbatim>\<open>TimeoutExpired\<close> or completes with a return code and the two captured texts.
\<close>

definition config_missing :: "config \<Rightarrow> bool" where
  \<comment> \<open>\<^verbatim>\<open>not config.GPU_SERVER_HOST or not config.GPU_SERVER_SSH_KEY\<close>\<close>
  "config_missing c = (GPU_SERVER_HOST c = [] \<or> GPU_SERVER_SSH_KEY c = [])"

definition connection_error :: "str \<Rightarrow> bool" where
  \<comment> \<open>\<^verbatim>\<open>"Connection timed out" in error_msg or "Connection refused" in error_msg\<close>\<close>
  "connection_error m =
     (contains m (u ''Connection timed out'') \<or> contains m (u ''Connection refused''))"

definition error_msg_of :: "str \<Rightarrow> str \<Rightarrow> str" where
  \<comment> \<open>\<^verbatim>\<open>result.stderr if result.stderr else result.stdout\<close>\<close>
  "error_msg_of out err = (if err \<noteq> [] then err else out)"

definition upload_to_gpu_server :: "world \<Rightarrow> local_path \<Rightarrow> remote_path \<Rightarrow> unit comp" where
  "upload_to_gpu_server w local_path remote_path = (\<lambda>s.
     if config_missing (conf w) then Some (Inl Config_Missing, s)
     else if \<not> key_exists w then Some (Inl Key_File_Missing, s)
     else
       let host = GPU_SERVER_HOST (conf w); port = GPU_SERVER_PORT (conf w);
           scp_cmd = Scp_Upload local_path remote_path;
           s' = started scp_cmd s
       in (case run_scp w scp_cmd of
             TimeoutExpired \<Rightarrow> Some (Inl (Upload_Timeout host port), s')
           | Completed returncode out err \<Rightarrow>
               if returncode \<noteq> 0 then
                 (let error_msg = error_msg_of out err
                  in if connection_error error_msg
                     then Some (Inl (Upload_Connect_Failed host port error_msg), s')
                     else Some (Inl (Upload_Failed error_msg), s'))
               else Some (Inr (), s')))"

definition written :: "local_path \<Rightarrow> pstate \<Rightarrow> pstate" where
  \<comment> \<open>a completed download leaves its local file in place\<close>
  "written lp s = (case lp of Tmp f \<Rightarrow> s\<lparr>files := insert f (files s)\<rparr> | Script _ \<Rightarrow> s)"

definition download_from_gpu_server :: "world \<Rightarrow> remote_path \<Rightarrow> local_path \<Rightarrow> unit comp" where
  "download_from_gpu_server w remote_path local_path = (\<lambda>s.
     if config_missing (conf w) then Some (Inl Config_Missing, s)
     else if \<not> key_exists w then Some (Inl Key_File_Missing, s)
     else
       let host = GPU_SERVER_HOST (conf w); port = GPU_SERVER_PORT (conf w);
           scp_cmd = Scp_Download remote_path local_path;
           s' = started scp_cmd s
       in (case run_scp w scp_cmd of
             TimeoutExpired \<Rightarrow> Some (Inl (Download_Timeout host port), s')
           | Completed returncode out err \<Rightarrow>
               if returncode \<noteq> 0 then
                 (let error_msg = error_msg_of out err
                  in if connection_error error_msg
                     then Some (Inl (Download_Connect_Failed host port error_msg), s')
                     else Some (Inl (Download_Failed error_msg), s'))
               else Some (Inr (), written local_path s')))"

section \<open>RemoteExecutor: \<^verbatim>\<open>run_on_gpu_server\<close>\<close>

text \<open>
  The read loop of lines 190--204. It ends when \<^verbatim>\<open>readline()\<close> returns the empty string
  and \<^verbatim>\<open>poll()\<close> a return code; as long as that is not observed it goes on, so a list of
  observations without it stands for a process that never ends, and the loop has no value.
\<close>

fun read_loop :: "(str \<times> int option) list \<Rightarrow> str list \<Rightarrow> (str list \<times> int) option" where
  "read_loop [] output_lines = None"
| "read_loop ((line, poll) # rest) output_lines =
     (if line = [] then
        (case poll of
           Some returncode \<Rightarrow> Some (output_lines, returncode)
         | None \<Rightarrow> read_loop rest output_lines)
      else
        (let line' = rstrip line
         in if line' \<noteq> [] then read_loop rest (output_lines @ [line'])
            else read_loop rest output_lines))"

definition is_exit :: "str \<times> int option \<Rightarrow> bool" where
  \<comment> \<open>the observation that ends the loop: end of file, and the process has exited\<close>
  "is_exit ob = (fst ob = [] \<and> snd ob \<noteq> None)"

definition stripped_lines :: "(str \<times> int option) list \<Rightarrow> str list" where
  \<comment> \<open>the lines read, each right-stripped, the empty ones discarded\<close>
  "stripped_lines obs = filter (\<lambda>l. l \<noteq> []) (map (\<lambda>ob. rstrip (fst ob)) obs)"

definition readline_shaped :: "str \<Rightarrow> bool" where
  \<comment> \<open>what \<^verbatim>\<open>readline()\<close> can return: a newline, if any, is the last character\<close>
  "readline_shaped l = (10 \<notin> set (butlast l))"

fun split_nl :: "str \<Rightarrow> str list" where
  \<comment> \<open>\<^verbatim>\<open>t.split('\\n')\<close>: the lines of a text\<close>
  "split_nl [] = [[]]"
| "split_nl (c # cs) =
     (if c = 10 then [] # split_nl cs
      else (case split_nl cs of [] \<Rightarrow> [[c]] | l # ls \<Rightarrow> (c # l) # ls))"

definition error_output_of :: "str list \<Rightarrow> tail" where
  \<comment> \<open>line 210: the last 20 lines joined, or the text that says there was no output\<close>
  "error_output_of output_lines =
     (if output_lines \<noteq> [] then Recent (join [10] (last_n 20 output_lines)) else No_Output)"

definition run_on_gpu_server :: "world \<Rightarrow> remote_cmd \<Rightarrow> bool \<Rightarrow> str comp" where
  \<comment> \<open>after the loop \<^verbatim>\<open>poll()\<close> has returned the code, so \<^verbatim>\<open>wait(timeout=600)\<close> returns at
     once; the handler of line 217 raises the exception of line 211 again\<close>
  "run_on_gpu_server w command realtime_output = (\<lambda>s.
     if config_missing (conf w) then Some (Inl Config_Missing, s)
     else if \<not> key_exists w then Some (Inl Key_File_Missing, s)
     else
       let s' = started (Ssh command realtime_output) s
       in if realtime_output then
            (case read_loop (popen_ssh w command) [] of
               None \<Rightarrow> None
             | Some (output_lines, returncode) \<Rightarrow>
                 if returncode \<noteq> 0
                 then Some (Inl (Ssh_Stream_Failed returncode (error_output_of output_lines)), s')
                 else Some (Inr (join [10] output_lines), s'))
          else
            (case run_ssh w command of
               TimeoutExpired \<Rightarrow> Some (Inl Ssh_TimeoutExpired, s')
             | Completed returncode out err \<Rightarrow>
                 if returncode \<noteq> 0
                 then Some (Inl (Ssh_Failed returncode (error_msg_of out err)), s')
                 else Some (Inr out, s')))"

section \<open>ResultParser and SessionPipeline: \<^verbatim>\<open>process_session_on_gpu_server\<close>\<close>

definition parse_object :: "json \<Rightarrow> exn + (json \<times> json)" where
  \<comment> \<open>lines 367--368 and 378--379: \<^verbatim>\<open>cup_coordinates\<close> and \<^verbatim>\<open>rotation_axis\<close> of the
     decoded value; \<open>JNull\<close> is Python's \<^verbatim>\<open>None\<close>\<close>
  "parse_object v =
     (case v of
        JObj d \<Rightarrow> Inr (py_get d (u ''cup_coordinates'') zero_coordinates,
                      py_get d (u ''rotation_axis'') JNull)
      | _ \<Rightarrow> Inl Not_A_Dict)"

definition read_result_file :: "world \<Rightarrow> (json \<times> json) comp" where
  \<comment> \<open>lines 365--368\<close>
  "read_result_file w = (\<lambda>s.
     case json_loads w (result_file_text w) of
       None \<Rightarrow> Some (Inl Json_Decode_Failed, s)
     | Some v \<Rightarrow> Some (parse_object v, s))"

definition parse_output :: "(str \<Rightarrow> json option) \<Rightarrow> str \<Rightarrow> json \<times> json" where
  \<comment> \<open>lines 372--385; the bare \<^verbatim>\<open>except:\<close> turns every failure into the defaults\<close>
  "parse_output loads output =
     (case re_search_braces output of
        None \<Rightarrow> (zero_coordinates, JNull)
      | Some m \<Rightarrow>
          (case loads m of
             None \<Rightarrow> (zero_coordinates, JNull)
           | Some v \<Rightarrow>
               (case parse_object v of
                  Inl _ \<Rightarrow> (zero_coordinates, JNull)
                | Inr r \<Rightarrow> r)))"

definition upload_and_extract :: "world \<Rightarrow> str \<Rightarrow> unit comp" where
  \<comment> \<open>lines 278--310\<close>
  "upload_and_extract w name = (\<lambda>s.
     try_finally
       (bind (if tar_fails w then throw Tar_Failed else ret ())
          (\<lambda>_. bind (upload_to_gpu_server w (Tmp Tar_Bundle) (Remote_Tar name))
             (\<lambda>_. bind (run_on_gpu_server w (Extract_Cmd name) True)
                (\<lambda>_. ret ()))))
       (unlink_if_exists Tar_Bundle)
       (create_temp Tar_Bundle s))"

definition upload_if_exists :: "world \<Rightarrow> script \<Rightarrow> unit comp" where
  "upload_if_exists w f =
     (if script_exists w f then upload_to_gpu_server w (Script f) (Remote_Script f)
      else ret ())"

definition stage_scripts :: "world \<Rightarrow> unit comp" where
  \<comment> \<open>lines 314--332\<close>
  "stage_scripts w =
     bind (upload_if_exists w Process_And_Save_Result)
       (\<lambda>_. upload_if_exists w Inference_With_Pose)"

definition download_and_parse :: "world \<Rightarrow> str \<Rightarrow> str \<Rightarrow> (json \<times> json) comp" where
  \<comment> \<open>lines 358--388\<close>
  "download_and_parse w name output = (\<lambda>s.
     try_finally
       (try_except
          (bind (download_from_gpu_server w (Remote_Result name) (Tmp Result_File))
             (\<lambda>_. read_result_file w))
          (\<lambda>e. ret (parse_output (json_loads w) output)))
       (unlink_if_exists Result_File)
       (create_temp Result_File s))"

definition primary :: "world \<Rightarrow> str \<Rightarrow> pstate \<Rightarrow> (json \<times> json) option" where
  \<comment> \<open>what lines 362--368 assign when none of them raises, \<open>None\<close> when one does\<close>
  "primary w name s =
     (case download_from_gpu_server w (Remote_Result name) (Tmp Result_File)
             (create_temp Result_File s) of
        Some (Inr _, _) \<Rightarrow>
          (case json_loads w (result_file_text w) of
             Some (JObj d) \<Rightarrow> Some (py_get d (u ''cup_coordinates'') zero_coordinates,
                                    py_get d (u ''rotation_axis'') JNull)
           | _ \<Rightarrow> None)
      | _ \<Rightarrow> None)"

definition done_message :: str where
  \<comment> \<open>the text of line 396\<close>
  "done_message = [52376, 47532, 32, 50756, 47308, 32, 40, 71, 80, 85, 32, 49436, 48260,
     50640, 49436, 32, 49892, 54665, 46120, 41]"

definition envelope :: "json \<times> json \<Rightarrow> (str \<times> json) list" where
  \<comment> \<open>lines 393--401: the items of the dict that is returned\<close>
  "envelope r =
     (case r of (cup_coordinates, rotation_axis) \<Rightarrow>
        [(u ''success'', JBool True),
         (u ''cup_coordinates'', cup_coordinates),
         (u ''message'', JStr done_message)]
        @ (if truthy rotation_axis then [(u ''rotation_axis'', rotation_axis)] else []))"

datatype response =
    Success_Envelope "(str \<times> json) list"
  | Failure_Envelope exn \<comment> \<open>lines 408--412: \<^verbatim>\<open>success\<close> false, \<^verbatim>\<open>error\<close> the text of the
      exception, \<^verbatim>\<open>message\<close> that text with the traceback\<close>

definition resolved_name :: "world \<Rightarrow> str" where
  \<comment> \<open>\<open>listing\<close> holds the entries of \<^verbatim>\<open>actual_session_folder\<close>, the folder that lines
     241--246 settle on\<close>
  "resolved_name w = session_folder_name (os_platform w) (listing w) (clock_ms w) (root_base w)"

definition stages_before_execute :: "world \<Rightarrow> unit comp" where
  \<comment> \<open>lines 273--332: pack, upload, extract, stage the scripts\<close>
  "stages_before_execute w =
     bind (upload_and_extract w (resolved_name w)) (\<lambda>_. stage_scripts w)"

definition stages_to_execute :: "world \<Rightarrow> str comp" where
  \<comment> \<open>lines 273--351: the above, then the model is run; the value is the captured output\<close>
  "stages_to_execute w =
     bind (stages_before_execute w) (\<lambda>_. run_on_gpu_server w Script_Cmd True)"

definition process_session_on_gpu_server :: "world \<Rightarrow> pstate \<Rightarrow> (response \<times> pstate) option" where
  \<comment> \<open>lines 235--412; the outer \<^verbatim>\<open>except Exception\<close> turns an exception into the failure
     envelope\<close>
  "process_session_on_gpu_server w s =
     (case bind (stages_to_execute w)
             (\<lambda>output. bind (download_and_parse w (resolved_name w) output)
                (\<lambda>r. ret (envelope r))) s of
        None \<Rightarrow> None
      | Some (Inl e, s') \<Rightarrow> Some (Failure_Envelope e, s')
      | Some (Inr result, s') \<Rightarrow> Some (Success_Envelope result, s'))"

section \<open>A concrete world\<close>

text \<open>
  The defaults of \<^verbatim>\<open>config.py\<close>, and a world in which every step succeeds: the session
  folder holds a frame and the session's \<^verbatim>\<open>.jsonl\<close> file, the extraction prints nothing,
  the model prints three lines and the result, and the downloaded file holds the same
  result. \<open>example_loads\<close> decodes the one JSON text of the example as
  \<^verbatim>\<open>json.loads\<close> does and rejects every other text.
\<close>

definition default_config :: config where
  "default_config = \<lparr>GPU_SERVER_HOST = u ''10.28.228.101'', GPU_SERVER_PORT = 31788,
     GPU_SERVER_USER = u ''root'',
     GPU_SERVER_SSH_KEY = u ''C:/Users/hyoun/image_segmentation.pem''\<rparr>"

definition example_loads :: "str \<Rightarrow> json option" where
  \<open>example_loads t =
     (if t = u ''{"cup_coordinates": [1.0, 2.0, 3.0]}''
      then Some (JObj [(u ''cup_coordinates'',
                        JArr [JFloat (Finite 1), JFloat (Finite 2), JFloat (Finite 3)])])
      else None)\<close>

definition example_world :: world where
  \<open>example_world =
     \<lparr>conf = default_config, key_exists = True, os_platform = Windows,
      listing = [u ''frame_0001.jpg'', u ''session_1768285041960.jsonl''],
      clock_ms = 1768285099000, root_base = u ''session_1768285041960'',
      tar_fails = False, script_exists = (\<lambda>_. True),
      run_scp = (\<lambda>_. Completed 0 [] []),
      run_ssh = (\<lambda>_. Completed 0 [] []),
      popen_ssh = (\<lambda>c. case c of
          Extract_Cmd _ \<Rightarrow> [([], Some 0)]
        | Script_Cmd \<Rightarrow>
            [(u ''loading model  \<newline>'', None), (u ''\<newline>'', None), ([], None),
             (u ''{"cup_coordinates": [1.0, 2.0, 3.0]}\<newline>'', None), ([], Some 0)]),
      result_file_text = u ''{"cup_coordinates": [1.0, 2.0, 3.0]}'',
      json_loads = example_loads\<rparr>\<close>

definition refused :: str where
  \<comment> \<open>what ssh prints when the port is closed\<close>
  "refused = u ''ssh: connect to host 10.28.228.101 port 31788: Connection refused''"

definition failing_run :: "(str \<times> int option) list" where
  \<comment> \<open>a model run that prints two lines and exits with code 1\<close>
  "failing_run = [(u ''loading model  \<newline>'', None), ([], None),
     (u ''CUDA out of memory\<newline>'', None), ([], Some 1)]"

definition loads_only :: "str \<Rightarrow> json \<Rightarrow> str \<Rightarrow> json option" where
  \<comment> \<open>a decoder that knows one text\<close>
  "loads_only t v x = (if x = t then Some v else None)"

definition serving :: "str \<Rightarrow> json \<Rightarrow> world" where
  \<comment> \<open>the example world with another result file\<close>
  "serving t v = example_world\<lparr>result_file_text := t, json_loads := loads_only t v\<rparr>"

definition download_fails_world :: world where
  \<comment> \<open>the example world without the remote result file\<close>
  "download_fails_world = example_world\<lparr>run_scp := \<lambda>l. case l of
       Scp_Download _ _ \<Rightarrow> Completed 1 [] (u ''scp: remote file: No such file or directory'')
     | _ \<Rightarrow> Completed 0 [] []\<rparr>"

definition example_output :: str where
  \<comment> \<open>what the model run of the example world returns\<close>
  \<open>example_output = u ''loading model\<newline>{"cup_coordinates": [1.0, 2.0, 3.0]}''\<close>

definition scp_timeout_world :: world where
  \<comment> \<open>the example world with every scp running into the timeout of 300 seconds\<close>
  "scp_timeout_world = example_world\<lparr>run_scp := \<lambda>_. TimeoutExpired\<rparr>"

definition scp_refused_world :: world where
  \<comment> \<open>the example world with the ssh port closed\<close>
  "scp_refused_world = example_world\<lparr>run_scp := \<lambda>_. Completed 255 [] refused\<rparr>"

definition initial :: pstate where
  \<comment> \<open>no temporary file yet, no subprocess started\<close>
  "initial = \<lparr>files = {}, launched = []\<rparr>"

section \<open>Properties of session name resolution\<close>


lemma u_session: "u ''session_'' = [115, 101, 115, 115, 105, 111, 110, 95]"
  by (simp add: u_def)

lemma u_jsonl: "u ''.jsonl'' = [46, 106, 115, 111, 110, 108]"
  by (simp add: u_def)

lemma startswith_append: "startswith s p \<longleftrightarrow> (\<exists>t. s = p @ t)"
proof
  assume "startswith s p"
  then have "s = p @ drop (length p) s"
    by (metis append_take_drop_id startswith_def)
  then show "\<exists>t. s = p @ t" ..
next
  assume "\<exists>t. s = p @ t"
  then show "startswith s p" by (auto simp: startswith_def)
qed

lemma endswith_append: "endswith s p \<longleftrightarrow> (\<exists>t. s = t @ p)"
proof
  assume "endswith s p"
  then have "s = take (length s - length p) s @ p"
    by (metis append_take_drop_id endswith_def)
  then show "\<exists>t. s = t @ p" ..
next
  assume "\<exists>t. s = t @ p"
  then show "endswith s p" by (auto simp: endswith_def)
qed

lemma normcase_append: "normcase p (a @ b) = normcase p a @ normcase p b"
  by (cases p) (simp_all add: normcase_def)

lemma normcase_session: "normcase p (u ''session_'') = u ''session_''"
  by (cases p) (simp_all add: normcase_def ascii_lower_def u_def)

lemma startswith_normcase:
  assumes "startswith n (u ''session_'')"
  shows "startswith (normcase p n) (u ''session_'')"
  using assms by (auto simp: startswith_append normcase_append normcase_session)

lemma normcase_Nil: "normcase p s = [] \<longleftrightarrow> s = []"
  by (cases p) (simp_all add: normcase_def)

lemma startswith_session_nonempty:
  assumes "startswith n (u ''session_'')"
  shows "n \<noteq> []"
  using assms by (auto simp: startswith_append u_session)


lemma glob_session_member:
  "h \<in> set (glob_session p names) \<longleftrightarrow>
     h \<in> set names \<and> \<not> ishidden h \<and> startswith (normcase p h) (u ''session_'')"
  by (auto simp: glob_session_def)



lemma synthesized_prefix: "startswith (synthesized now) (u ''session_'')"
  by (simp add: synthesized_def startswith_append)

lemma conforming_strip_prefix:
  assumes "conforming j"
  shows "startswith (take (length j - 6) j) (u ''session_'')"
proof -
  from assms have "\<exists>t. j = u ''session_'' @ t" and "\<exists>t'. j = t' @ u ''.jsonl''"
    by (simp_all add: conforming_def startswith_append endswith_append)
  then obtain t t' where a: "j = u ''session_'' @ t" and b: "j = t' @ u ''.jsonl''"
    by blast
  have strip: "take (length j - 6) j = t'"
    by (subst (1 2) b) (simp add: u_jsonl)
  from a b have "u ''session_'' @ t = t' @ u ''.jsonl''" by simp
  then obtain us where
    "(u ''session_'' = t' @ us \<and> us @ t = u ''.jsonl'') \<or> (u ''session_'' @ us = t' \<and> t = us @ u ''.jsonl'')"
    by (auto simp: append_eq_append_conv2)
  then have "\<exists>r. t' = u ''session_'' @ r"
  proof
    assume c: "u ''session_'' = t' @ us \<and> us @ t = u ''.jsonl''"
    show ?thesis
    proof (cases us)
      case Nil
      with c show ?thesis by simp
    next
      case (Cons x xs)
      with c have "x = 46" by (simp add: u_jsonl)
      moreover from c Cons have "x \<in> set (u ''session_'')"
        by (metis in_set_conv_decomp)
      ultimately show ?thesis by (simp add: u_session)
    qed
  next
    assume "u ''session_'' @ us = t' \<and> t = us @ u ''.jsonl''"
    then show ?thesis by auto
  qed
  then show ?thesis by (simp add: strip startswith_append)
qed

lemma candidate_prefix:
  "startswith (normcase p (session_name_candidate p names now)) (u ''session_'')"
proof (cases "glob_session p names")
  case (Cons h hs)
  then have "h \<in> set (glob_session p names)" by simp
  then have "startswith (normcase p h) (u ''session_'')"
    by (simp only: glob_session_member)
  with Cons show ?thesis by (simp add: session_name_candidate_def)
next
  case Nil
  show ?thesis
  proof (cases "glob_jsonl p names")
    case Nil2: Nil
    with Nil show ?thesis
      by (simp add: session_name_candidate_def startswith_normcase [OF synthesized_prefix])
  next
    case (Cons j js)
    with Nil show ?thesis
      by (simp add: session_name_candidate_def startswith_normcase [OF synthesized_prefix]
          startswith_normcase [OF conforming_strip_prefix])
  qed
qed

lemma candidate_nonempty: "session_name_candidate p names now \<noteq> []"
  using startswith_session_nonempty [OF candidate_prefix] by (simp add: normcase_Nil)


lemma folder_name_is_candidate:
  "session_folder_name p names now rb = session_name_candidate p names now"
  by (simp add: session_folder_name_def candidate_nonempty)


text \<open>
  What the first case means for a folder that holds only the session's \<^verbatim>\<open>.jsonl\<close> file:
  the file itself matches \<^verbatim>\<open>session_*\<close>, and the name keeps the extension.
\<close>

lemma jsonl_only_folder:
  "session_folder_name p [u ''session_42.jsonl''] now rb = u ''session_42.jsonl''"
  by (cases p)
    (simp_all add: session_folder_name_def session_name_candidate_def glob_session_def
      u_def ishidden_def startswith_def normcase_def ascii_lower_def)



text \<open>
  Claim C9 fails where \<^verbatim>\<open>glob\<close> ignores letter case: on Windows the folder entry
  \<^verbatim>\<open>Session_1\<close> matches \<^verbatim>\<open>session_*\<close> and becomes the name as it is spelled.
\<close>

theorem session_prefix_counterexample:
  "session_folder_name Windows [u ''Session_1''] 0 (u ''extracted'') = u ''Session_1''
   \<and> \<not> startswith (session_folder_name Windows [u ''Session_1''] 0 (u ''extracted'')) (u ''session_'')"
  by (simp add: session_folder_name_def session_name_candidate_def glob_session_def u_def
      ishidden_def startswith_def normcase_def ascii_lower_def)

text \<open>
  Claim C9, amended. The name assigned before line 269 is never empty, so the fallback
  to the base name of the folder is unreachable and the result is that name; after
  \<^verbatim>\<open>os.path.normcase\<close> it starts with \<^verbatim>\<open>session_\<close>, and where matching is case-sensitive
  (POSIX) the name itself starts with \<^verbatim>\<open>session_\<close>.
\<close>

theorem session_name_prefix:
  "session_name_candidate p names now \<noteq> []
   \<and> session_folder_name p names now rb = session_name_candidate p names now
   \<and> startswith (normcase p (session_folder_name p names now rb)) (u ''session_'')
   \<and> (p = Posix \<longrightarrow> startswith (session_folder_name p names now rb) (u ''session_''))"
proof -
  have "p = Posix \<longrightarrow> startswith (session_name_candidate p names now) (u ''session_'')"
    using candidate_prefix [of p names now] by (auto simp: normcase_def)
  then show ?thesis
    by (simp add: candidate_nonempty folder_name_is_candidate candidate_prefix)
qed

theorem session_name_prefix_witness:
  "startswith (session_folder_name Posix [u ''Session_1''] 0 (u ''extracted'')) (u ''session_'')
   \<and> session_folder_name Posix [u ''Session_1''] 0 (u ''extracted'') = u ''session_0''"
proof -
  have "session_folder_name Posix [u ''Session_1''] 0 (u ''extracted'') = u ''session_0''"
    by (simp add: session_folder_name_def session_name_candidate_def glob_session_def
        glob_jsonl_def u_def ishidden_def startswith_def endswith_def normcase_def
        synthesized_def str_int_def str_nat.simps)
  moreover have "startswith (session_folder_name Posix [u ''Session_1''] 0 (u ''extracted'')) (u ''session_'')"
    using session_name_prefix [of Posix "[u ''Session_1'']" 0 "u ''extracted''"] by blast
  ultimately show ?thesis by blast
qed

section \<open>Properties of the transfer client and the remote executor\<close>

lemma upload_config_error:
  assumes "config_missing (conf w) \<or> \<not> key_exists w"
  shows "\<exists>e. upload_to_gpu_server w lp rp s = Some (Inl e, s) \<and> kind_of e = ConfigError"
  using assms by (auto simp: upload_to_gpu_server_def)

lemma download_config_error:
  assumes "config_missing (conf w) \<or> \<not> key_exists w"
  shows "\<exists>e. download_from_gpu_server w rp lp s = Some (Inl e, s) \<and> kind_of e = ConfigError"
  using assms by (auto simp: download_from_gpu_server_def)

lemma run_config_error:
  assumes "config_missing (conf w) \<or> \<not> key_exists w"
  shows "\<exists>e. run_on_gpu_server w c rt s = Some (Inl e, s) \<and> kind_of e = ConfigError"
  using assms by (auto simp: run_on_gpu_server_def)

text \<open>
  Claim C6, amended. When the remote host or the key path is not configured, or the key
  file does not exist, upload, download and remote execution each raise a configuration
  error and leave the state as it was: no subprocess has been started. The remote user is
  not among the conditions.
\<close>

theorem config_error_before_any_subprocess:
  assumes "GPU_SERVER_HOST (conf w) = [] \<or> GPU_SERVER_SSH_KEY (conf w) = [] \<or> \<not> key_exists w"
  shows "(\<exists>e. upload_to_gpu_server w lp rp s = Some (Inl e, s) \<and> kind_of e = ConfigError)
       \<and> (\<exists>e. download_from_gpu_server w rp' lp' s = Some (Inl e, s) \<and> kind_of e = ConfigError)
       \<and> (\<exists>e. run_on_gpu_server w c rt s = Some (Inl e, s) \<and> kind_of e = ConfigError)"
proof -
  from assms have "config_missing (conf w) \<or> \<not> key_exists w"
    by (auto simp: config_missing_def)
  then show ?thesis
    by (intro conjI upload_config_error download_config_error run_config_error)
qed

lemma example_conf [simp]:
  "\<not> config_missing (conf example_world)" "key_exists example_world"
  by (simp_all add: example_world_def default_config_def config_missing_def u_def)

text \<open>
  Claim C6 fails for the remote user: with an empty \<^verbatim>\<open>GPU_SERVER_USER\<close> and the rest of
  the configuration in place, the upload starts scp and completes.
\<close>

theorem user_not_checked_counterexample:
  "GPU_SERVER_USER (conf (example_world\<lparr>conf := default_config\<lparr>GPU_SERVER_USER := []\<rparr>\<rparr>)) = []
   \<and> upload_to_gpu_server (example_world\<lparr>conf := default_config\<lparr>GPU_SERVER_USER := []\<rparr>\<rparr>)
        (Tmp Tar_Bundle) (Remote_Tar (u ''session_1'')) initial
      = Some (Inr (), \<lparr>files = {}, launched = [Scp_Upload (Tmp Tar_Bundle) (Remote_Tar (u ''session_1''))]\<rparr>)"
  by (simp add: upload_to_gpu_server_def example_world_def default_config_def config_missing_def
      u_def initial_def started_def)

theorem config_error_before_any_subprocess_witness:
  "(\<exists>e. upload_to_gpu_server (example_world\<lparr>key_exists := False\<rparr>) (Tmp Tar_Bundle) (Remote_Tar (u ''session_1'')) initial = Some (Inl e, initial) \<and> kind_of e = ConfigError)
   \<and> (\<exists>e. download_from_gpu_server (example_world\<lparr>key_exists := False\<rparr>) (Remote_Result (u ''session_1'')) (Tmp Result_File) initial = Some (Inl e, initial) \<and> kind_of e = ConfigError)
   \<and> (\<exists>e. run_on_gpu_server (example_world\<lparr>key_exists := False\<rparr>) Script_Cmd True initial = Some (Inl e, initial) \<and> kind_of e = ConfigError)"
proof -
  have h: "GPU_SERVER_HOST (conf (example_world\<lparr>key_exists := False\<rparr>)) = []
      \<or> GPU_SERVER_SSH_KEY (conf (example_world\<lparr>key_exists := False\<rparr>)) = []
      \<or> \<not> key_exists (example_world\<lparr>key_exists := False\<rparr>)"
    by simp
  show ?thesis
    using config_error_before_any_subprocess [OF h, where lp = "Tmp Tar_Bundle"
        and rp = "Remote_Tar (u ''session_1'')" and s = initial
        and rp' = "Remote_Result (u ''session_1'')" and lp' = "Tmp Result_File"
        and c = Script_Cmd and rt = True]
    by blast
qed

lemma upload_attempt:
  assumes "\<not> config_missing (conf w)" and "key_exists w"
  shows "upload_to_gpu_server w lp rp s =
     Some ((case run_scp w (Scp_Upload lp rp) of
              TimeoutExpired \<Rightarrow> Inl (Upload_Timeout (GPU_SERVER_HOST (conf w)) (GPU_SERVER_PORT (conf w)))
            | Completed rc out err \<Rightarrow>
                if rc = 0 then Inr ()
                else if connection_error (error_msg_of out err)
                then Inl (Upload_Connect_Failed (GPU_SERVER_HOST (conf w)) (GPU_SERVER_PORT (conf w)) (error_msg_of out err))
                else Inl (Upload_Failed (error_msg_of out err))),
           started (Scp_Upload lp rp) s)"
  using assms by (simp add: upload_to_gpu_server_def Let_def split: completed.split)

lemma download_attempt:
  assumes "\<not> config_missing (conf w)" and "key_exists w"
  shows "\<exists>s'. launched s' = launched s @ [Scp_Download rp lp] \<and>
     download_from_gpu_server w rp lp s =
     Some ((case run_scp w (Scp_Download rp lp) of
              TimeoutExpired \<Rightarrow> Inl (Download_Timeout (GPU_SERVER_HOST (conf w)) (GPU_SERVER_PORT (conf w)))
            | Completed rc out err \<Rightarrow>
                if rc = 0 then Inr ()
                else if connection_error (error_msg_of out err)
                then Inl (Download_Connect_Failed (GPU_SERVER_HOST (conf w)) (GPU_SERVER_PORT (conf w)) (error_msg_of out err))
                else Inl (Download_Failed (error_msg_of out err))),
           s')"
  using assms
  by (cases lp) (simp_all add: download_from_gpu_server_def Let_def started_def written_def split: completed.split)

text \<open>
  Claim C5, amended. With the configuration in place, an upload or a download starts
  exactly one scp subprocess. A timeout, and a non-zero exit whose diagnostic contains
  \<^verbatim>\<open>Connection timed out\<close> or \<^verbatim>\<open>Connection refused\<close>, is a connectivity error; every
  other non-zero exit is a transfer error that carries the diagnostic (stderr, or stdout
  when stderr is empty). On the upload side the connection failure names the three checks
  (VPN, GPU server, network) and the timeout the VPN check. Which checks the download
  side names is left open here.
\<close>

theorem transfer_failure_mapping:
  assumes "\<not> config_missing (conf w)" and "key_exists w"
  shows "\<exists>up down s1 s2.
      upload_to_gpu_server w lp rp s = Some (up, s1) \<and> launched s1 = launched s @ [Scp_Upload lp rp]
    \<and> download_from_gpu_server w rp' lp' s = Some (down, s2) \<and> launched s2 = launched s @ [Scp_Download rp' lp']
    \<and> (run_scp w (Scp_Upload lp rp) = TimeoutExpired \<longrightarrow>
          (\<exists>e. up = Inl e \<and> kind_of e = ConnectivityError \<and> guidance e = [Check_VPN]))
    \<and> (run_scp w (Scp_Download rp' lp') = TimeoutExpired \<longrightarrow>
          (\<exists>e. down = Inl e \<and> kind_of e = ConnectivityError))
    \<and> (\<forall>rc out err. run_scp w (Scp_Upload lp rp) = Completed rc out err \<and> rc \<noteq> 0
          \<and> connection_error (error_msg_of out err) \<longrightarrow>
          (\<exists>e. up = Inl e \<and> kind_of e = ConnectivityError
             \<and> guidance e = [Check_VPN, Check_GPU_Server, Check_Network]
             \<and> diagnostic e = Some (error_msg_of out err)))
    \<and> (\<forall>rc out err. run_scp w (Scp_Download rp' lp') = Completed rc out err \<and> rc \<noteq> 0
          \<and> connection_error (error_msg_of out err) \<longrightarrow>
          (\<exists>e. down = Inl e \<and> kind_of e = ConnectivityError
             \<and> diagnostic e = Some (error_msg_of out err)))
    \<and> (\<forall>rc out err. run_scp w (Scp_Upload lp rp) = Completed rc out err \<and> rc \<noteq> 0
          \<and> \<not> connection_error (error_msg_of out err) \<longrightarrow>
          (\<exists>e. up = Inl e \<and> kind_of e = TransferError \<and> diagnostic e = Some (error_msg_of out err)))
    \<and> (\<forall>rc out err. run_scp w (Scp_Download rp' lp') = Completed rc out err \<and> rc \<noteq> 0
          \<and> \<not> connection_error (error_msg_of out err) \<longrightarrow>
          (\<exists>e. down = Inl e \<and> kind_of e = TransferError \<and> diagnostic e = Some (error_msg_of out err)))"
proof -
  from download_attempt [OF assms, of s rp' lp'] obtain s2 where
    d: "launched s2 = launched s @ [Scp_Download rp' lp']"
      "download_from_gpu_server w rp' lp' s =
     Some ((case run_scp w (Scp_Download rp' lp') of
              TimeoutExpired \<Rightarrow> Inl (Download_Timeout (GPU_SERVER_HOST (conf w)) (GPU_SERVER_PORT (conf w)))
            | Completed rc out err \<Rightarrow>
                if rc = 0 then Inr ()
                else if connection_error (error_msg_of out err)
                then Inl (Download_Connect_Failed (GPU_SERVER_HOST (conf w)) (GPU_SERVER_PORT (conf w)) (error_msg_of out err))
                else Inl (Download_Failed (error_msg_of out err))),
           s2)" by blast
  show ?thesis
    apply (simp only: upload_attempt [OF assms] d(2))
    apply (intro exI conjI)
            apply (rule refl)
           apply (simp add: started_def)
          apply (rule refl)
         apply (rule d(1))
        apply simp_all
    done
qed


lemma refused_connection_error: "connection_error refused"
  by (simp add: connection_error_def refused_def u_def startswith_def)

text \<open>
  Claim C5 fails for the guidance: a download that times out is reported as not being
  able to connect, and its message (line 119) names no check at all; a download that is
  refused names the VPN and the GPU server, not the network.
\<close>

theorem download_guidance_counterexample:
  "download_from_gpu_server scp_timeout_world
       (Remote_Result (u ''session_1'')) (Tmp Result_File) initial
     = Some (Inl (Download_Timeout (u ''10.28.228.101'') 31788),
             \<lparr>files = {}, launched = [Scp_Download (Remote_Result (u ''session_1'')) (Tmp Result_File)]\<rparr>)
   \<and> kind_of (Download_Timeout (u ''10.28.228.101'') 31788) = ConnectivityError
   \<and> guidance (Download_Timeout (u ''10.28.228.101'') 31788) = []
   \<and> download_from_gpu_server scp_refused_world
       (Remote_Result (u ''session_1'')) (Tmp Result_File) initial
     = Some (Inl (Download_Connect_Failed (u ''10.28.228.101'') 31788 refused),
             \<lparr>files = {}, launched = [Scp_Download (Remote_Result (u ''session_1'')) (Tmp Result_File)]\<rparr>)
   \<and> guidance (Download_Connect_Failed (u ''10.28.228.101'') 31788 refused)
     = [Check_VPN, Check_GPU_Server]"
proof -
  have m: "error_msg_of [] refused = refused"
    by (simp add: error_msg_of_def refused_def u_def)
  show ?thesis
    by (simp add: download_from_gpu_server_def scp_timeout_world_def scp_refused_world_def
        example_world_def default_config_def config_missing_def initial_def started_def
        m refused_connection_error)
      (simp add: u_def)
qed

theorem transfer_failure_mapping_witness:
  "\<exists>e s1. upload_to_gpu_server scp_refused_world
        (Tmp Tar_Bundle) (Remote_Tar (u ''session_1'')) initial = Some (Inl e, s1)
     \<and> launched s1 = [Scp_Upload (Tmp Tar_Bundle) (Remote_Tar (u ''session_1''))]
     \<and> kind_of e = ConnectivityError
     \<and> guidance e = [Check_VPN, Check_GPU_Server, Check_Network]
     \<and> diagnostic e = Some refused"
proof -
  let ?w = scp_refused_world
  have c: "\<not> config_missing (conf ?w)" and k: "key_exists ?w"
    by (simp_all add: scp_refused_world_def example_world_def default_config_def
        config_missing_def u_def)
  have r: "run_scp ?w (Scp_Upload (Tmp Tar_Bundle) (Remote_Tar (u ''session_1''))) = Completed 255 [] refused"
    by (simp add: scp_refused_world_def)
  have m: "error_msg_of [] refused = refused"
    by (simp add: error_msg_of_def refused_def u_def)
  have ce: "connection_error (error_msg_of [] refused)"
    by (simp only: m refused_connection_error)
  have l: "launched initial = []" by (simp add: initial_def)
  show ?thesis
    using transfer_failure_mapping [OF c k, where lp = "Tmp Tar_Bundle"
      and rp = "Remote_Tar (u ''session_1'')" and s = initial
      and rp' = "Remote_Result (u ''session_1'')" and lp' = "Tmp Result_File"]
    apply (elim exE conjE)
    subgoal premises p for up down s1 s2
    proof -
      have "\<exists>e. up = Inl e \<and> kind_of e = ConnectivityError
             \<and> guidance e = [Check_VPN, Check_GPU_Server, Check_Network]
             \<and> diagnostic e = Some (error_msg_of [] refused)"
        by (rule p(7) [rule_format, of 255 "[]" refused]) (simp add: r ce)
      then show ?thesis
        using p(1) p(2) l m by auto
    qed
    done
qed

lemma rstrip_Nil [simp]: "rstrip [] = []"
  by (simp add: rstrip_def)

lemma stripped_lines_Cons:
  "stripped_lines ((l, p) # obs) =
     (if rstrip l \<noteq> [] then rstrip l # stripped_lines obs else stripped_lines obs)"
  by (simp add: stripped_lines_def)

lemma read_loop_skip:
  assumes "\<forall>ob \<in> set pre. \<not> is_exit ob"
  shows "read_loop (pre @ rest) acc = read_loop rest (acc @ stripped_lines pre)"
  using assms
proof (induction pre arbitrary: acc)
  case Nil
  then show ?case by (simp add: stripped_lines_def)
next
  case (Cons ob pre)
  obtain line poll where ob: "ob = (line, poll)" by (cases ob)
  from Cons.prems have rest: "\<forall>ob \<in> set pre. \<not> is_exit ob"
    and here: "\<not> is_exit (line, poll)" by (simp_all add: ob)
  show ?case
  proof (cases "line = []")
    case True
    with here have "poll = None" by (simp add: is_exit_def)
    with True show ?thesis
      using Cons.IH [OF rest] by (simp add: ob stripped_lines_Cons)
  next
    case False
    then show ?thesis
      using Cons.IH [OF rest] by (simp add: ob stripped_lines_Cons Let_def)
  qed
qed

lemma read_loop_exit:
  assumes "\<forall>ob \<in> set pre. \<not> is_exit ob"
  shows "read_loop (pre @ ([], Some rc) # post) [] = Some (stripped_lines pre, rc)"
  by (simp add: read_loop_skip [OF assms])

lemma read_loop_never:
  assumes "\<forall>ob \<in> set obs. \<not> is_exit ob"
  shows "read_loop obs acc = None"
  using read_loop_skip [OF assms, of "[]" acc] by simp

lemma last_n_suffix: "\<exists>ys. xs = ys @ last_n n xs"
  by (metis append_take_drop_id last_n_def)

lemma length_last_n: "length (last_n n xs) = min n (length xs)"
  by (simp add: last_n_def)

lemma run_streaming:
  assumes "\<not> config_missing (conf w)" and "key_exists w"
    and "popen_ssh w c = pre @ ([], Some rc) # post" and "\<forall>ob \<in> set pre. \<not> is_exit ob"
  shows "run_on_gpu_server w c True s =
     Some (if rc \<noteq> 0 then Inl (Ssh_Stream_Failed rc (error_output_of (stripped_lines pre)))
           else Inr (join [10] (stripped_lines pre)), started (Ssh c True) s)"
  using assms(1-3) by (simp add: run_on_gpu_server_def read_loop_exit [OF assms(4)])

lemma bind_value:
  assumes "m s = Some (Inr a, s1)"
  shows "bind m f s = f a s1"
  using assms by (simp add: bind_def)

lemma bind_exception:
  assumes "m s = Some (Inl e, s1)"
  shows "bind m f s = Some (Inl e, s1)"
  using assms by (simp add: bind_def)

text \<open>
  Claim C4. A streaming execution whose read loop sees the process exit with a return
  code other than zero raises the execution error that carries the code and the last 20
  stripped lines joined by newlines, or the no-output marker when there is none; and
  when this is the run of the model, the pipeline returns the failure envelope with that
  error.
\<close>

theorem streaming_nonzero_exit:
  assumes "\<not> config_missing (conf w)" and "key_exists w"
    and "popen_ssh w c = pre @ ([], Some rc) # post" and "\<forall>ob \<in> set pre. \<not> is_exit ob"
    and "rc \<noteq> 0"
  shows "\<exists>e. run_on_gpu_server w c True s = Some (Inl e, started (Ssh c True) s)
      \<and> e = Ssh_Stream_Failed rc
             (if stripped_lines pre = [] then No_Output
              else Recent (join [10] (last_n 20 (stripped_lines pre))))
      \<and> kind_of e = ExecutionError
      \<and> length (last_n 20 (stripped_lines pre)) = min 20 (length (stripped_lines pre))
      \<and> (\<exists>earlier. stripped_lines pre = earlier @ last_n 20 (stripped_lines pre))
      \<and> (c = Script_Cmd \<longrightarrow>
           (\<forall>s0 s1. stages_before_execute w s0 = Some (Inr (), s1) \<longrightarrow>
              process_session_on_gpu_server w s0
                = Some (Failure_Envelope e, started (Ssh Script_Cmd True) s1)))"
proof -
  let ?e = "Ssh_Stream_Failed rc (error_output_of (stripped_lines pre))"
  have run: "run_on_gpu_server w c True s = Some (Inl ?e, started (Ssh c True) s)" for s
    using run_streaming [OF assms(1-4)] assms(5) by simp
  have pipeline: "process_session_on_gpu_server w s0
      = Some (Failure_Envelope ?e, started (Ssh Script_Cmd True) s1)"
    if "c = Script_Cmd" and "stages_before_execute w s0 = Some (Inr (), s1)" for s0 s1
  proof -
    have "stages_to_execute w s0 = Some (Inl ?e, started (Ssh Script_Cmd True) s1)"
      using run [of s1] that by (simp add: stages_to_execute_def
          bind_value [where m = "stages_before_execute w", OF that(2)])
    then show ?thesis
      by (simp add: process_session_on_gpu_server_def bind_exception)
  qed
  show ?thesis
    using run pipeline last_n_suffix [of "stripped_lines pre" 20]
    by (auto simp: error_output_of_def length_last_n)
qed


lemma upload_ok:
  assumes "\<not> config_missing (conf w)" and "key_exists w"
    and "run_scp w (Scp_Upload lp rp) = Completed 0 out err"
  shows "upload_to_gpu_server w lp rp s = Some (Inr (), started (Scp_Upload lp rp) s)"
  using assms by (simp add: upload_to_gpu_server_def)

lemma files_started [simp]: "files (started l s) = files s"
  by (simp add: started_def)

lemma files_create_temp [simp]: "files (create_temp f s) = insert f (files s)"
  by (simp add: create_temp_def)

lemma stages_before_execute_ok:
  assumes cfg: "\<not> config_missing (conf w)" "key_exists w"
    and tar: "\<not> tar_fails w"
    and scp: "\<And>lp rp. run_scp w (Scp_Upload lp rp) = Completed 0 [] []"
    and xtr: "popen_ssh w (Extract_Cmd (resolved_name w)) = pre @ ([], Some 0) # post"
      "\<forall>ob \<in> set pre. \<not> is_exit ob"
  shows "\<exists>s1. stages_before_execute w s = Some (Inr (), s1) \<and> files s1 = files s - {Tar_Bundle}"
proof -
  have up: "upload_to_gpu_server w lp rp s' = Some (Inr (), started (Scp_Upload lp rp) s')" for lp rp s'
    using cfg scp by (rule upload_ok)
  have ex: "run_on_gpu_server w (Extract_Cmd (resolved_name w)) True s'
      = Some (Inr (join [10] (stripped_lines pre)), started (Ssh (Extract_Cmd (resolved_name w)) True) s')" for s'
    using run_streaming [OF cfg xtr] by simp
  have a: "\<exists>s1. upload_and_extract w (resolved_name w) s = Some (Inr (), s1)
      \<and> files s1 = files s - {Tar_Bundle}"
    using tar
    by (simp add: upload_and_extract_def try_finally_def bind_def ret_def up ex unlink_if_exists_def)
  have b: "\<exists>s2. stage_scripts w s1 = Some (Inr (), s2) \<and> files s2 = files s1" for s1
    by (simp add: stage_scripts_def upload_if_exists_def bind_def ret_def up)
  from a obtain s1 where 1: "upload_and_extract w (resolved_name w) s = Some (Inr (), s1)"
    and 2: "files s1 = files s - {Tar_Bundle}" by blast
  from b [of s1] obtain s2 where 3: "stage_scripts w s1 = Some (Inr (), s2)"
    and 4: "files s2 = files s1" by blast
  have "stages_before_execute w s = Some (Inr (), s2)"
    by (simp add: stages_before_execute_def bind_def 1 3)
  with 2 4 show ?thesis by simp
qed

lemma example_world_facts:
  "\<not> config_missing (conf example_world)" "key_exists example_world"
  "\<not> tar_fails example_world"
  "run_scp example_world l = Completed 0 [] []"
  "popen_ssh example_world (Extract_Cmd n) = [([], Some 0)]"
  "json_loads example_world = example_loads"
  by (simp_all add: example_world_def default_config_def config_missing_def u_def)

lemma rstrip_examples:
  "rstrip (u ''loading model  \<newline>'') = u ''loading model''"
  "rstrip (u ''CUDA out of memory\<newline>'') = u ''CUDA out of memory''"
  "rstrip (u ''\<newline>'') = []"
  by (simp_all add: rstrip_def u_def isspace_def)

theorem streaming_nonzero_exit_witness:
  "\<exists>s'. process_session_on_gpu_server
          (example_world\<lparr>popen_ssh := \<lambda>c. case c of Extract_Cmd _ \<Rightarrow> [([], Some 0)]
                                                 | Script_Cmd \<Rightarrow> failing_run\<rparr>) initial
     = Some (Failure_Envelope
               (Ssh_Stream_Failed 1 (Recent (u ''loading model\<newline>CUDA out of memory''))), s')"
proof -
  let ?w = "example_world\<lparr>popen_ssh := \<lambda>c. case c of Extract_Cmd _ \<Rightarrow> [([], Some 0)]
                                                 | Script_Cmd \<Rightarrow> failing_run\<rparr>"
  let ?pre = "[(u ''loading model  \<newline>'', None :: int option), ([], None),
      (u ''CUDA out of memory\<newline>'', None)]"
  have c: "\<not> config_missing (conf ?w)" and k: "key_exists ?w" and t: "\<not> tar_fails ?w"
    and scp: "\<And>lp rp. run_scp ?w (Scp_Upload lp rp) = Completed 0 [] []"
    by (simp_all add: example_world_facts)
  have ex: "popen_ssh ?w (Extract_Cmd (resolved_name ?w)) = [] @ ([], Some 0) # []" by simp
  have tr: "popen_ssh ?w Script_Cmd = ?pre @ ([], Some 1) # []"
    by (simp add: failing_run_def)
  have ne: "\<forall>ob \<in> set ?pre. \<not> is_exit ob" by (simp add: is_exit_def u_def)
  have sl: "stripped_lines ?pre = [u ''loading model'', u ''CUDA out of memory'']"
    by (simp add: stripped_lines_Cons rstrip_examples stripped_lines_def) (simp add: u_def)
  have jn: "join [10] (last_n 20 [u ''loading model'', u ''CUDA out of memory''])
      = u ''loading model\<newline>CUDA out of memory''"
    by (simp add: last_n_def u_def)
  from stages_before_execute_ok [OF c k t scp ex, of initial]
  obtain s1 where s1: "stages_before_execute ?w initial = Some (Inr (), s1)" by auto
  from streaming_nonzero_exit [OF c k tr ne, of initial]
  have "process_session_on_gpu_server ?w initial
      = Some (Failure_Envelope (Ssh_Stream_Failed 1
           (if stripped_lines ?pre = [] then No_Output
            else Recent (join [10] (last_n 20 (stripped_lines ?pre))))),
         started (Ssh Script_Cmd True) s1)"
    using s1 by auto
  then show ?thesis by (simp add: sl jn)
qed

lemma rstrip_last:
  assumes "rstrip l \<noteq> []"
  shows "\<not> isspace (last (rstrip l))"
proof -
  from assms have ne: "dropWhile isspace (rev l) \<noteq> []" by (simp add: rstrip_def)
  then have "\<not> isspace (hd (dropWhile isspace (rev l)))" by (rule hd_dropWhile)
  with ne show ?thesis by (simp add: rstrip_def last_rev)
qed

lemma stripped_lines_member:
  assumes "l \<in> set (stripped_lines obs)"
  shows "l \<noteq> [] \<and> \<not> isspace (last l)"
  using assms by (auto simp: stripped_lines_def rstrip_last)

lemma set_rstrip: "set (rstrip l) \<subseteq> set l"
  by (auto simp: rstrip_def dest: set_dropWhileD)

lemma isspace_newline: "isspace 10"
  by (simp add: isspace_def)

lemma rstrip_no_newline:
  assumes "readline_shaped l"
  shows "10 \<notin> set (rstrip l)"
proof (cases "l = []")
  case True
  then show ?thesis by simp
next
  case False
  then have l: "l = butlast l @ [last l]" by simp
  show ?thesis
  proof (cases "last l = 10")
    case True
    have "rstrip l = rstrip (butlast l)"
      by (subst l) (simp add: rstrip_def True isspace_newline)
    then show ?thesis
      using set_rstrip [of "butlast l"] assms by (auto simp: readline_shaped_def)
  next
    case False
    have "set l = set (butlast l) \<union> {last l}" by (subst l) simp
    with False assms have "10 \<notin> set l" by (simp add: readline_shaped_def)
    then show ?thesis using set_rstrip [of l] by auto
  qed
qed

lemma stripped_lines_no_newline:
  assumes "\<forall>ob \<in> set obs. readline_shaped (fst ob)" and "l \<in> set (stripped_lines obs)"
  shows "10 \<notin> set l"
  using assms by (auto simp: stripped_lines_def rstrip_no_newline)

lemma split_nl_line:
  assumes "10 \<notin> set x"
  shows "split_nl x = [x]"
  using assms by (induction x) auto

lemma split_nl_append:
  assumes "10 \<notin> set x"
  shows "split_nl (x @ 10 # rest) = x # split_nl rest"
  using assms by (induction x) auto

lemma split_nl_join_Cons:
  assumes "10 \<notin> set x" and "\<forall>l \<in> set ls. 10 \<notin> set l"
  shows "split_nl (join [10] (x # ls)) = x # ls"
  using assms
proof (induction ls arbitrary: x)
  case Nil
  then show ?case by (simp add: split_nl_line)
next
  case (Cons y ys)
  then show ?case by (simp add: split_nl_append)
qed

lemma split_nl_join:
  assumes "\<forall>l \<in> set ls. 10 \<notin> set l" and "ls \<noteq> []"
  shows "split_nl (join [10] ls) = ls"
  using assms by (cases ls) (simp_all add: split_nl_join_Cons)

text \<open>
  Claim C10. When the process exits with code zero, the text returned in streaming mode
  is the newline-join of the lines read, each right-stripped, the empty ones discarded.
  Every line kept is non-empty and does not end in whitespace; when each string read has
  the shape \<^verbatim>\<open>readline()\<close> gives it, splitting the text at newlines gives back exactly the
  kept lines, so the text has no blank line. This text is the output the pipeline hands
  to the parser.
\<close>

theorem streaming_output_text:
  assumes "\<not> config_missing (conf w)" and "key_exists w"
    and "popen_ssh w c = pre @ ([], Some 0) # post" and "\<forall>ob \<in> set pre. \<not> is_exit ob"
  shows "run_on_gpu_server w c True s
        = Some (Inr (join [10] (filter (\<lambda>l. l \<noteq> []) (map (\<lambda>ob. rstrip (fst ob)) pre))),
                started (Ssh c True) s)
      \<and> (\<forall>l \<in> set (stripped_lines pre). l \<noteq> [] \<and> \<not> isspace (last l))
      \<and> ((\<forall>ob \<in> set pre. readline_shaped (fst ob)) \<and> stripped_lines pre \<noteq> [] \<longrightarrow>
            split_nl (join [10] (stripped_lines pre)) = stripped_lines pre)
      \<and> (c = Script_Cmd \<longrightarrow>
           (\<forall>s0 s1. stages_before_execute w s0 = Some (Inr (), s1) \<longrightarrow>
              stages_to_execute w s0
                = Some (Inr (join [10] (stripped_lines pre)), started (Ssh Script_Cmd True) s1)))"
proof (intro conjI impI allI ballI)
  have run: "run_on_gpu_server w c True s'
      = Some (Inr (join [10] (stripped_lines pre)), started (Ssh c True) s')" for s'
    using run_streaming [OF assms] by simp
  then show "run_on_gpu_server w c True s
        = Some (Inr (join [10] (filter (\<lambda>l. l \<noteq> []) (map (\<lambda>ob. rstrip (fst ob)) pre))),
                started (Ssh c True) s)"
    by (simp add: stripped_lines_def)
  show "stages_to_execute w s0
      = Some (Inr (join [10] (stripped_lines pre)), started (Ssh Script_Cmd True) s1)"
    if "c = Script_Cmd" and "stages_before_execute w s0 = Some (Inr (), s1)" for s0 s1
    using run [of s1] that
    by (simp add: stages_to_execute_def bind_value [where m = "stages_before_execute w", OF that(2)])
next
  fix l assume "l \<in> set (stripped_lines pre)"
  then show "l \<noteq> []" and "\<not> isspace (last l)"
    using stripped_lines_member by blast+
next
  assume a: "(\<forall>ob \<in> set pre. readline_shaped (fst ob)) \<and> stripped_lines pre \<noteq> []"
  then have "\<forall>l \<in> set (stripped_lines pre). 10 \<notin> set l"
    using stripped_lines_no_newline by blast
  with a show "split_nl (join [10] (stripped_lines pre)) = stripped_lines pre"
    by (simp add: split_nl_join)
qed


theorem streaming_output_text_witness:
  \<open>run_on_gpu_server example_world Script_Cmd True initial
     = Some (Inr (u ''loading model\<newline>{"cup_coordinates": [1.0, 2.0, 3.0]}''),
             started (Ssh Script_Cmd True) initial)
   \<and> split_nl (u ''loading model\<newline>{"cup_coordinates": [1.0, 2.0, 3.0]}'')
     = [u ''loading model'', u ''{"cup_coordinates": [1.0, 2.0, 3.0]}'']\<close>
proof -
  let ?pre = \<open>[(u ''loading model  \<newline>'', None :: int option), (u ''\<newline>'', None), ([], None),
             (u ''{"cup_coordinates": [1.0, 2.0, 3.0]}\<newline>'', None)]\<close>
  have tr: "popen_ssh example_world Script_Cmd = ?pre @ ([], Some 0) # []"
    by (simp add: example_world_def)
  have ne: "\<forall>ob \<in> set ?pre. \<not> is_exit ob" by (simp add: is_exit_def u_def)
  have rs: \<open>rstrip (u ''{"cup_coordinates": [1.0, 2.0, 3.0]}\<newline>'')
      = u ''{"cup_coordinates": [1.0, 2.0, 3.0]}''\<close>
    by (simp add: rstrip_def u_def isspace_def)
  have sl: \<open>stripped_lines ?pre = [u ''loading model'', u ''{"cup_coordinates": [1.0, 2.0, 3.0]}'']\<close>
    by (simp add: stripped_lines_Cons rstrip_examples rs stripped_lines_def) (simp add: u_def)
  have jn: \<open>join [10] [u ''loading model'', u ''{"cup_coordinates": [1.0, 2.0, 3.0]}'']
      = u ''loading model\<newline>{"cup_coordinates": [1.0, 2.0, 3.0]}''\<close>
    by (simp add: u_def)
  have shaped: "\<forall>ob \<in> set ?pre. readline_shaped (fst ob)"
    by (simp add: readline_shaped_def u_def)
  have fl: "filter (\<lambda>l. l \<noteq> []) (map (\<lambda>ob. rstrip (fst ob)) ?pre) = stripped_lines ?pre"
    unfolding stripped_lines_def by (rule refl)
  have nonempty: "stripped_lines ?pre \<noteq> []" by (simp add: sl)
  from streaming_output_text [OF example_world_facts(1,2) tr ne, of initial]
  have "run_on_gpu_server example_world Script_Cmd True initial
        = Some (Inr (join [10] (stripped_lines ?pre)), started (Ssh Script_Cmd True) initial)"
    and "split_nl (join [10] (stripped_lines ?pre)) = stripped_lines ?pre"
    using shaped nonempty by (simp_all only: fl simp_thms)
  then show ?thesis by (simp only: sl jn simp_thms)
qed

section \<open>Properties of the parser and the pipeline\<close>

lemma bind_cases:
  assumes "bind m f s = Some (r, s')"
  shows "(\<exists>e. m s = Some (Inl e, s') \<and> r = Inl e)
       \<or> (\<exists>a s1. m s = Some (Inr a, s1) \<and> f a s1 = Some (r, s'))"
  using assms by (auto simp: bind_def split: option.splits sum.splits)

lemma try_finally_unlink:
  assumes "try_finally m (unlink_if_exists f) s = Some (r, s')"
  shows "\<exists>s1. m s = Some (r, s1) \<and> files s' = files s1 - {f}"
  using assms
  by (auto simp: try_finally_def unlink_if_exists_def split: option.splits if_splits)

lemma upload_files:
  assumes "upload_to_gpu_server w lp rp s = Some (r, s')"
  shows "files s' = files s"
  using assms
  by (auto simp: upload_to_gpu_server_def Let_def split: if_splits completed.splits)

lemma run_files:
  assumes "run_on_gpu_server w c rt s = Some (r, s')"
  shows "files s' = files s"
  using assms
  by (auto simp: run_on_gpu_server_def Let_def split: if_splits completed.splits option.splits)

lemma download_files:
  assumes "download_from_gpu_server w rp (Tmp f) s = Some (r, s')"
  shows "files s' = files s \<or> files s' = insert f (files s)"
  using assms
  by (auto simp: download_from_gpu_server_def written_def Let_def split: if_splits completed.splits)

lemma download_total:
  "\<exists>r s'. download_from_gpu_server w rp lp s = Some (r, s')"
  by (auto simp: download_from_gpu_server_def Let_def split: completed.splits)

lemma upload_and_extract_files:
  assumes "upload_and_extract w name s = Some (r, s')"
  shows "files s' = files s - {Tar_Bundle}"
proof -
  let ?body = "bind (if tar_fails w then throw Tar_Failed else ret ())
          (\<lambda>_. bind (upload_to_gpu_server w (Tmp Tar_Bundle) (Remote_Tar name))
             (\<lambda>_. bind (run_on_gpu_server w (Extract_Cmd name) True)
                (\<lambda>_. ret ())))"
  from assms obtain s1 where body: "?body (create_temp Tar_Bundle s) = Some (r, s1)"
    and fin: "files s' = files s1 - {Tar_Bundle}"
    unfolding upload_and_extract_def by (blast dest: try_finally_unlink)
  have "files s1 = insert Tar_Bundle (files s)"
  proof (cases "tar_fails w")
    case True
    with body show ?thesis by (auto simp: bind_def throw_def)
  next
    case False
    with body have b2: "bind (upload_to_gpu_server w (Tmp Tar_Bundle) (Remote_Tar name))
             (\<lambda>_. bind (run_on_gpu_server w (Extract_Cmd name) True)
                (\<lambda>_. ret ())) (create_temp Tar_Bundle s) = Some (r, s1)"
      by (simp add: bind_def ret_def)
    from bind_cases [OF b2] show ?thesis
    proof (elim disjE exE conjE)
      fix e assume "upload_to_gpu_server w (Tmp Tar_Bundle) (Remote_Tar name) (create_temp Tar_Bundle s) = Some (Inl e, s1)"
      then show ?thesis by (simp add: upload_files)
    next
      fix a s2
      assume up: "upload_to_gpu_server w (Tmp Tar_Bundle) (Remote_Tar name) (create_temp Tar_Bundle s) = Some (Inr a, s2)"
        and rest: "bind (run_on_gpu_server w (Extract_Cmd name) True) (\<lambda>_. ret ()) s2 = Some (r, s1)"
      from up have f2: "files s2 = insert Tar_Bundle (files s)" by (simp add: upload_files)
      from bind_cases [OF rest] have "files s1 = files s2"
        by (auto simp: ret_def dest: run_files)
      with f2 show ?thesis by simp
    qed
  qed
  with fin show ?thesis by auto
qed

lemma upload_if_exists_files:
  assumes "upload_if_exists w f s = Some (r, s')"
  shows "files s' = files s"
  using assms by (auto simp: upload_if_exists_def ret_def split: if_splits dest: upload_files)

lemma stage_scripts_files:
  assumes "stage_scripts w s = Some (r, s')"
  shows "files s' = files s"
  using bind_cases [OF assms [unfolded stage_scripts_def]]
  by (auto dest: upload_if_exists_files)

lemma stages_before_execute_files:
  assumes "stages_before_execute w s = Some (r, s')"
  shows "files s' = files s - {Tar_Bundle}"
  using bind_cases [OF assms [unfolded stages_before_execute_def]]
  by (auto dest: upload_and_extract_files stage_scripts_files)

lemma stages_to_execute_files:
  assumes "stages_to_execute w s = Some (r, s')"
  shows "files s' = files s - {Tar_Bundle}"
  using bind_cases [OF assms [unfolded stages_to_execute_def]]
  by (auto dest: stages_before_execute_files run_files)

lemma download_and_parse_result:
  "\<exists>s'. download_and_parse w name output s
      = Some (Inr (case primary w name s of Some r \<Rightarrow> r
                   | None \<Rightarrow> parse_output (json_loads w) output), s')
     \<and> files s' = files s - {Result_File}"
proof -
  obtain r s1 where d: "download_from_gpu_server w (Remote_Result name) (Tmp Result_File)
             (create_temp Result_File s) = Some (r, s1)"
    using download_total by blast
  from download_files [OF d] have f: "files s1 - {Result_File} = files s - {Result_File}"
    by auto
  show ?thesis
  proof (cases r)
    case (Inl e)
    with d f show ?thesis
      by (auto simp: download_and_parse_def try_finally_def try_except_def bind_def ret_def
          unlink_if_exists_def primary_def)
  next
    case (Inr a)
    show ?thesis
    proof (cases "json_loads w (result_file_text w)")
      case None
      with d f Inr show ?thesis
        by (auto simp: download_and_parse_def try_finally_def try_except_def bind_def ret_def
            unlink_if_exists_def primary_def read_result_file_def)
    next
      case (Some v)
      with d f Inr show ?thesis
        by (cases v)
          (auto simp: download_and_parse_def try_finally_def try_except_def bind_def ret_def
            unlink_if_exists_def primary_def read_result_file_def parse_object_def)
    qed
  qed
qed

lemma process_session_result:
  "process_session_on_gpu_server w s =
     (case stages_to_execute w s of
        None \<Rightarrow> None
      | Some (Inl e, s1) \<Rightarrow> Some (Failure_Envelope e, s1)
      | Some (Inr output, s1) \<Rightarrow>
          (case download_and_parse w (resolved_name w) output s1 of
             None \<Rightarrow> None
           | Some (Inl e, s2) \<Rightarrow> Some (Failure_Envelope e, s2)
           | Some (Inr r, s2) \<Rightarrow> Some (Success_Envelope (envelope r), s2)))"
  by (simp add: process_session_on_gpu_server_def bind_def ret_def
      split: option.splits sum.splits prod.splits)

text \<open>
  Claim C8. Whenever the pipeline returns, with the success envelope or with the failure
  envelope that the outer handler makes of an exception raised anywhere on the way, the
  temporary archive does not exist, no temporary file exists that did not exist before
  the call, and, when the download stage was reached, the temporary result file does not
  exist. Removing a file is taken to succeed.
\<close>

theorem temporary_files_removed:
  assumes "process_session_on_gpu_server w s = Some (r, s')"
  shows "Tar_Bundle \<notin> files s' \<and> files s' \<subseteq> files s
       \<and> (\<forall>output s1. stages_to_execute w s = Some (Inr output, s1) \<longrightarrow> Result_File \<notin> files s')"
proof (cases "stages_to_execute w s")
  case None
  with assms show ?thesis by (simp add: process_session_result)
next
  case (Some a)
  obtain x s1 where a: "a = (x, s1)" by (cases a)
  from Some a have f1: "files s1 = files s - {Tar_Bundle}"
    by (simp add: stages_to_execute_files)
  show ?thesis
  proof (cases x)
    case (Inl e)
    with assms Some a have "s' = s1" by (simp add: process_session_result)
    with f1 Some a Inl show ?thesis by auto
  next
    case (Inr out)
    obtain s2 where dp: "download_and_parse w (resolved_name w) out s1
      = Some (Inr (case primary w (resolved_name w) s1 of Some r \<Rightarrow> r
                   | None \<Rightarrow> parse_output (json_loads w) out), s2)"
      and f2: "files s2 = files s1 - {Result_File}"
      using download_and_parse_result by blast
    with assms Some a Inr have "s' = s2" by (simp add: process_session_result)
    with f1 f2 show ?thesis by auto
  qed
qed






lemma pipeline_success:
  assumes "stages_to_execute w s = Some (Inr out, s1)"
  shows "\<exists>s'. process_session_on_gpu_server w s
     = Some (Success_Envelope (envelope (case primary w (resolved_name w) s1 of Some r \<Rightarrow> r
                   | None \<Rightarrow> parse_output (json_loads w) out)), s')"
  using download_and_parse_result [of w "resolved_name w" out s1] assms
  by (auto simp: process_session_result)




text \<open>
  What the greedy match means for an output with two brace-delimited pieces: the match
  spans both, does not decode, and the result is the default.
\<close>

lemma two_objects_in_output:
  \<open>re_search_braces (u ''{"cup_coordinates": [1.0, 2.0, 3.0]} saved {ok}'')
     = Some (u ''{"cup_coordinates": [1.0, 2.0, 3.0]} saved {ok}'')
   \<and> parse_output example_loads (u ''{"cup_coordinates": [1.0, 2.0, 3.0]} saved {ok}'')
     = (zero_coordinates, JNull)\<close>
proof -
  have m: \<open>re_search_braces (u ''{"cup_coordinates": [1.0, 2.0, 3.0]} saved {ok}'')
     = Some (u ''{"cup_coordinates": [1.0, 2.0, 3.0]} saved {ok}'')\<close>
    by (simp add: re_search_braces_def u_def)
  have l: \<open>example_loads (u ''{"cup_coordinates": [1.0, 2.0, 3.0]} saved {ok}'') = None\<close>
    by (simp add: example_loads_def u_def)
  show ?thesis
    by (simp only: m parse_output_def l option.case simp_thms)
qed

lemma stages_to_execute_ok:
  assumes cfg: "\<not> config_missing (conf w)" "key_exists w"
    and tar: "\<not> tar_fails w"
    and scp: "\<And>lp rp. run_scp w (Scp_Upload lp rp) = Completed 0 [] []"
    and xtr: "popen_ssh w (Extract_Cmd (resolved_name w)) = pre @ ([], Some 0) # post"
      "\<forall>ob \<in> set pre. \<not> is_exit ob"
    and run: "popen_ssh w Script_Cmd = pre' @ ([], Some 0) # post'"
      "\<forall>ob \<in> set pre'. \<not> is_exit ob"
  shows "\<exists>s1. stages_to_execute w s = Some (Inr (join [10] (stripped_lines pre')), s1)"
proof -
  from stages_before_execute_ok [OF cfg tar scp xtr, of s]
  obtain s0 where "stages_before_execute w s = Some (Inr (), s0)" by auto
  then show ?thesis
    using run_streaming [OF cfg run, of s0]
    by (simp add: stages_to_execute_def bind_def)
qed

lemma example_stripped:
  \<open>stripped_lines [(u ''loading model  \<newline>'', None), (u ''\<newline>'', None), ([], None),
             (u ''{"cup_coordinates": [1.0, 2.0, 3.0]}\<newline>'', None)]
     = [u ''loading model'', u ''{"cup_coordinates": [1.0, 2.0, 3.0]}'']\<close>
proof -
  have rs: \<open>rstrip (u ''{"cup_coordinates": [1.0, 2.0, 3.0]}\<newline>'')
      = u ''{"cup_coordinates": [1.0, 2.0, 3.0]}''\<close>
    by (simp add: rstrip_def u_def isspace_def)
  show ?thesis
    by (simp add: stripped_lines_Cons rstrip_examples rs stripped_lines_def) (simp add: u_def)
qed

lemma example_stages:
  assumes same: "conf w = conf example_world" "key_exists w" "\<not> tar_fails w"
    "\<And>lp rp. run_scp w (Scp_Upload lp rp) = Completed 0 [] []"
    "popen_ssh w = popen_ssh example_world"
  shows "\<exists>s1. stages_to_execute w s = Some (Inr example_output, s1)"
proof -
  let ?pre = \<open>[(u ''loading model  \<newline>'', None :: int option), (u ''\<newline>'', None), ([], None),
             (u ''{"cup_coordinates": [1.0, 2.0, 3.0]}\<newline>'', None)]\<close>
  have cfg: "\<not> config_missing (conf w)" by (simp add: same example_world_facts)
  have xtr: "popen_ssh w (Extract_Cmd (resolved_name w)) = [] @ ([], Some 0) # []"
    by (simp add: same example_world_facts)
  have run: "popen_ssh w Script_Cmd = ?pre @ ([], Some 0) # []"
    by (simp add: same) (simp add: example_world_def)
  have ne: "\<forall>ob \<in> set ?pre. \<not> is_exit ob" by (simp add: is_exit_def u_def)
  have jn: "join [10] (stripped_lines ?pre) = example_output"
    by (simp only: example_stripped) (simp add: example_output_def u_def)
  from stages_to_execute_ok [OF cfg same(2,3,4) xtr _ run ne, of s]
  show ?thesis by (simp only: jn) simp
qed

lemma primary_ok:
  assumes "\<not> config_missing (conf w)" and "key_exists w"
    and "run_scp w (Scp_Download (Remote_Result name) (Tmp Result_File)) = Completed 0 out err"
    and "json_loads w (result_file_text w) = Some (JObj d)"
  shows "primary w name s = Some (py_get d (u ''cup_coordinates'') zero_coordinates,
                                  py_get d (u ''rotation_axis'') JNull)"
  using assms by (simp add: primary_def download_from_gpu_server_def)

lemma serving_facts:
  "conf (serving t v) = conf example_world" "key_exists (serving t v)"
  "\<not> tar_fails (serving t v)" "run_scp (serving t v) l = Completed 0 [] []"
  "popen_ssh (serving t v) = popen_ssh example_world"
  "json_loads (serving t v) (result_file_text (serving t v)) = Some v"
  "\<not> config_missing (conf (serving t v))"
  by (simp_all add: serving_def example_world_facts loads_only_def)

lemma serving_envelope:
  "\<exists>s'. process_session_on_gpu_server (serving t (JObj d)) s
     = Some (Success_Envelope (envelope (py_get d (u ''cup_coordinates'') zero_coordinates,
                                  py_get d (u ''rotation_axis'') JNull)), s')"
proof -
  obtain s1 where "stages_to_execute (serving t (JObj d)) s = Some (Inr example_output, s1)"
    using example_stages [OF serving_facts(1-4) serving_facts(5)] by blast
  from pipeline_success [OF this] show ?thesis
    by (simp add: primary_ok [OF serving_facts(7) serving_facts(2) serving_facts(4) serving_facts(6)])
qed


lemma map_option_fst:
  assumes "\<exists>s'. x = Some (r, s')"
  shows "map_option fst x = Some r"
  using assms by auto


lemma download_fails_world_facts:
  "conf download_fails_world = conf example_world" "key_exists download_fails_world"
  "\<not> tar_fails download_fails_world"
  "run_scp download_fails_world (Scp_Upload lp rp) = Completed 0 [] []"
  "popen_ssh download_fails_world = popen_ssh example_world"
  "json_loads download_fails_world = example_loads"
  "\<not> config_missing (conf download_fails_world)"
  "run_scp download_fails_world (Scp_Download rp' lp')
     = Completed 1 [] (u ''scp: remote file: No such file or directory'')"
  by (simp_all add: download_fails_world_def example_world_facts)


theorem temporary_files_removed_witness:
  "(\<exists>e s'. process_session_on_gpu_server example_world initial = Some (Success_Envelope e, s')
        \<and> Tar_Bundle \<notin> files s' \<and> Result_File \<notin> files s')
   \<and> (\<exists>e s'. process_session_on_gpu_server download_fails_world initial = Some (Success_Envelope e, s')
        \<and> Tar_Bundle \<notin> files s' \<and> Result_File \<notin> files s')"
proof -
  have run: "\<exists>e s'. process_session_on_gpu_server w initial = Some (Success_Envelope e, s')
        \<and> Tar_Bundle \<notin> files s' \<and> Result_File \<notin> files s'"
    if same: "conf w = conf example_world" "key_exists w" "\<not> tar_fails w"
      "\<And>lp rp. run_scp w (Scp_Upload lp rp) = Completed 0 [] []"
      "popen_ssh w = popen_ssh example_world" for w
  proof -
    obtain s1 where st: "stages_to_execute w initial = Some (Inr example_output, s1)"
      using example_stages [OF same] by blast
    from pipeline_success [OF st] obtain e s' where
      p: "process_session_on_gpu_server w initial = Some (Success_Envelope e, s')" by blast
    from temporary_files_removed [OF p] st
    have "Tar_Bundle \<notin> files s'" and "Result_File \<notin> files s'" by auto
    with p show ?thesis by blast
  qed
  have "\<exists>e s'. process_session_on_gpu_server example_world initial = Some (Success_Envelope e, s')
        \<and> Tar_Bundle \<notin> files s' \<and> Result_File \<notin> files s'"
    by (rule run) (simp_all add: example_world_facts)
  moreover have "\<exists>e s'. process_session_on_gpu_server download_fails_world initial = Some (Success_Envelope e, s')
        \<and> Tar_Bundle \<notin> files s' \<and> Result_File \<notin> files s'"
    by (rule run) (simp_all add: download_fails_world_facts)
  ultimately show ?thesis by blast
qed








lemma envelope_items:
  "map_of (envelope (cup, rot)) (u ''success'') = Some (JBool True)"
  "map_of (envelope (cup, rot)) (u ''cup_coordinates'') = Some cup"
  "map_of (envelope (cup, rot)) (u ''message'') = Some (JStr done_message)"
  "map_of (envelope (cup, rot)) (u ''rotation_axis'') = (if truthy rot then Some rot else None)"
  "fst ` set (envelope (cup, rot)) =
     {u ''success'', u ''cup_coordinates'', u ''message''}
     \<union> (if truthy rot then {u ''rotation_axis''} else {})"
  by (simp_all add: envelope_def u_def)

text \<open>
  Claim C7 fails for a rotation axis that Python counts as false: the result file holds an
  empty list under \<^verbatim>\<open>rotation_axis\<close>, the parsed result has that value, and the envelope
  has no such field.
\<close>

theorem empty_axis_counterexample:
  \<open>json_loads (serving (u ''{"cup_coordinates": [1.0, 2.0, 3.0], "rotation_axis": []}'')
       (JObj [(u ''cup_coordinates'', JArr [JFloat (Finite 1), JFloat (Finite 2), JFloat (Finite 3)]),
              (u ''rotation_axis'', JArr [])]))
       (u ''{"cup_coordinates": [1.0, 2.0, 3.0], "rotation_axis": []}'')
     = Some (JObj [(u ''cup_coordinates'', JArr [JFloat (Finite 1), JFloat (Finite 2), JFloat (Finite 3)]),
                   (u ''rotation_axis'', JArr [])])
   \<and> parse_object (JObj [(u ''cup_coordinates'', JArr [JFloat (Finite 1), JFloat (Finite 2), JFloat (Finite 3)]),
                         (u ''rotation_axis'', JArr [])])
     = Inr (JArr [JFloat (Finite 1), JFloat (Finite 2), JFloat (Finite 3)], JArr [])
   \<and> map_option fst (process_session_on_gpu_server
       (serving (u ''{"cup_coordinates": [1.0, 2.0, 3.0], "rotation_axis": []}'')
          (JObj [(u ''cup_coordinates'', JArr [JFloat (Finite 1), JFloat (Finite 2), JFloat (Finite 3)]),
                 (u ''rotation_axis'', JArr [])]))
       initial)
     = Some (Success_Envelope
               [(u ''success'', JBool True),
                (u ''cup_coordinates'', JArr [JFloat (Finite 1), JFloat (Finite 2), JFloat (Finite 3)]),
                (u ''message'', JStr done_message)])\<close>
proof -
  let ?d = "[(u ''cup_coordinates'', JArr [JFloat (Finite 1), JFloat (Finite 2), JFloat (Finite 3)]),
              (u ''rotation_axis'', JArr [])]"
  have g: "py_get ?d (u ''cup_coordinates'') zero_coordinates
             = JArr [JFloat (Finite 1), JFloat (Finite 2), JFloat (Finite 3)]"
    "py_get ?d (u ''rotation_axis'') JNull = JArr []"
    by (simp_all add: py_get_def u_def)
  have "map_option fst (process_session_on_gpu_server (serving t (JObj ?d)) initial)
     = Some (Success_Envelope
               [(u ''success'', JBool True),
                (u ''cup_coordinates'', JArr [JFloat (Finite 1), JFloat (Finite 2), JFloat (Finite 3)]),
                (u ''message'', JStr done_message)])" for t
    using serving_envelope [of t ?d initial]
    by (auto simp: g envelope_def)
  then show ?thesis
    by (simp add: parse_object_def g serving_def loads_only_def)
qed

text \<open>
  Claim C7, amended. The success envelope holds \<^verbatim>\<open>success\<close> true, the parsed
  \<^verbatim>\<open>cup_coordinates\<close> and the message; it holds \<^verbatim>\<open>rotation_axis\<close> exactly when the parsed
  value is true in Python's sense, then with that value: always for a non-empty list,
  never for \<^verbatim>\<open>None\<close>.
\<close>

theorem envelope_fields:
  assumes "process_session_on_gpu_server w s = Some (Success_Envelope e, s')"
  shows "\<exists>out s1 cup rot.
      stages_to_execute w s = Some (Inr out, s1)
    \<and> download_and_parse w (resolved_name w) out s1 = Some (Inr (cup, rot), s')
    \<and> map_of e (u ''success'') = Some (JBool True)
    \<and> map_of e (u ''cup_coordinates'') = Some cup
    \<and> map_of e (u ''message'') = Some (JStr done_message)
    \<and> (u ''rotation_axis'' \<in> fst ` set e \<longleftrightarrow> truthy rot)
    \<and> (truthy rot \<longrightarrow> map_of e (u ''rotation_axis'') = Some rot)
    \<and> (rot = JNull \<longrightarrow> u ''rotation_axis'' \<notin> fst ` set e)
    \<and> (\<forall>x xs. rot = JArr (x # xs) \<longrightarrow> map_of e (u ''rotation_axis'') = Some rot)"
proof -
  from assms obtain out s1 r where st: "stages_to_execute w s = Some (Inr out, s1)"
    and dp: "download_and_parse w (resolved_name w) out s1 = Some (Inr r, s')"
    and e: "e = envelope r"
    by (auto simp: process_session_result split: option.splits sum.splits prod.splits)
  obtain cup rot where r: "r = (cup, rot)" by (cases r)
  have keys: "u ''rotation_axis'' \<in> fst ` set (envelope (cup, rot)) \<longleftrightarrow> truthy rot"
    by (simp add: envelope_items(5)) (simp add: u_def)
  show ?thesis
    using st dp keys unfolding e r
    by (intro exI [of _ out] exI [of _ s1] exI [of _ cup] exI [of _ rot])
      (auto simp: envelope_items(1-4))
qed

theorem envelope_fields_witness:
  "\<exists>e s'. process_session_on_gpu_server example_world initial = Some (Success_Envelope e, s')
     \<and> map_of e (u ''success'') = Some (JBool True)
     \<and> map_of e (u ''message'') = Some (JStr done_message)
     \<and> (\<exists>cup. map_of e (u ''cup_coordinates'') = Some cup)"
proof -
  obtain s1 where st: "stages_to_execute example_world initial = Some (Inr example_output, s1)"
    using example_stages [of example_world initial] by (auto simp: example_world_facts)
  from pipeline_success [OF st] obtain e s' where
    p: "process_session_on_gpu_server example_world initial = Some (Success_Envelope e, s')"
    by blast
  from envelope_fields [OF p] show ?thesis using p by blast
qed

end
